theory Spec2Isabelle
  imports Complex_Main "HOL-Library.AList"
begin

section \<open>JavaScript values\<close>

text \<open>
  A JavaScript \<^verbatim>\<open>number\<close> is idealised as a real; the two infinities that the
  strategies write as literals (\<^verbatim>\<open>Infinity\<close> as the start of a minimum search,
  \<^verbatim>\<open>-Infinity\<close> as \<^verbatim>\<open>Math.max()\<close> of nothing) are added where the code can
  produce them. Rounding, overflow and NaN are outside the model.
\<close>

datatype jsnum = NegInfinity | Num real | Infinity

fun js_less :: "jsnum \<Rightarrow> jsnum \<Rightarrow> bool" where
  "js_less NegInfinity NegInfinity = False"
| "js_less NegInfinity _ = True"
| "js_less (Num x) (Num y) = (x < y)"
| "js_less (Num x) Infinity = True"
| "js_less (Num x) NegInfinity = False"
| "js_less Infinity _ = False"

text \<open>\<^verbatim>\<open>Math.max(...xs)\<close>: the fold starts at \<^verbatim>\<open>-Infinity\<close>.\<close>

definition Math_max :: "real list \<Rightarrow> jsnum" where
  "Math_max xs = foldl (\<lambda>m x. if js_less m (Num x) then Num x else m) NegInfinity xs"

text \<open>
  The values of type \<^verbatim>\<open>unknown\<close> and \<^verbatim>\<open>Record<string, unknown>\<close> that arrive in a
  request are JSON values. An object is the list of its own entries, in enumeration order.
\<close>

datatype json =
    JNull
  | JBool bool
  | JNum real
  | JStr string
  | JArr "json list"
  | JObj "(string \<times> json) list"

fun truthy :: "json \<Rightarrow> bool" where
  "truthy JNull = False"
| "truthy (JBool b) = b"
| "truthy (JNum x) = (x \<noteq> 0)"
| "truthy (JStr s) = (s \<noteq> [])"
| "truthy (JArr _) = True"
| "truthy (JObj _) = True"

text \<open>Decimal digits of an array index, as \<^verbatim>\<open>Object.entries\<close> names the elements of an array.\<close>

fun digit_char :: "nat \<Rightarrow> char" where
  "digit_char n = char_of (48 + n mod 10)"

function index_string :: "nat \<Rightarrow> string" where
  "index_string n = (if n < 10 then [digit_char n] else index_string (n div 10) @ [digit_char n])"
  by pat_completeness auto
termination
  by (relation "measure (\<lambda>n. n)") auto

text \<open>
  \<^verbatim>\<open>Object.entries(x || {})\<close> for an optional property \<^verbatim>\<open>x\<close>: a missing or falsy
  value gives no entries, an object its entries, an array its elements under their
  indices, a string its characters under their indices, any other primitive none.
\<close>

fun Object_entries :: "json \<Rightarrow> (string \<times> json) list" where
  "Object_entries (JObj kvs) = kvs"
| "Object_entries (JArr xs) = map (\<lambda>(i, x). (index_string i, x)) (enumerate 0 xs)"
| "Object_entries (JStr s) = map (\<lambda>(i, c). (index_string i, JStr [c])) (enumerate 0 s)"
| "Object_entries _ = []"

definition entries_or_empty :: "json option \<Rightarrow> (string \<times> json) list" where
  "entries_or_empty x =
     (case x of
        None \<Rightarrow> []
      | Some v \<Rightarrow> if truthy v then Object_entries v else [])"

section \<open>Data model (types.ts)\<close>

text \<open>
  Field names are those of the interfaces, prefixed by \<open>n_\<close> (ThoughtNode) and
  \<open>r_\<close> (ReasoningResponse) because a record field is a constant of the theory; the
  request keeps the plain names. An optional property is an \<open>option\<close>.
\<close>

record ThoughtNode =
  n_id :: string
  n_thought :: string
  n_score :: real
  n_depth :: int
  n_children :: "string list"
  n_parentId :: "string option"
  n_isComplete :: bool
  n_evaluations :: "(string \<times> real) list option"
  n_simulationResults :: "(string \<times> json) list option"
  n_heuristicValue :: "real option"
  n_constraints :: "(string \<times> json) list option"

record ReasoningRequest =
  thought :: string
  thoughtNumber :: int
  totalThoughts :: int
  nextThoughtNeeded :: bool
  parentId :: "string option"
  strategyType :: "string option"
  branchingFactor :: "int option"
  evaluations :: "(string \<times> real) list option"
  evaluationMetrics :: "string list option"
  constraints :: "(string \<times> json) list option"
  problemType :: "string option"

record ReasoningResponse =
  r_nodeId :: string
  r_thought :: string
  r_score :: real
  r_depth :: int
  r_isComplete :: bool
  r_nextThoughtNeeded :: bool
  r_bestScore :: "jsnum option"
  r_strategyUsed :: "string option"
  r_openSetSize :: "nat option"
  r_closedSetSize :: "nat option"
  r_estimatedDistanceToGoal :: "real option"
  r_totalCost :: "real option"
  r_constraintsSatisfied :: "bool option"
  r_unassignedVariables :: "string list option"
  r_currentAssignments :: "(string \<times> json) list option"
  r_godotData :: "json option"
  r_blenderData :: "json option"
  r_visualizationData :: "json option"
  r_error :: "bool option"
  r_errorMessage :: "string option"

text \<open>The response with the six required fields and every optional one absent.\<close>

definition plain_response ::
  "string \<Rightarrow> string \<Rightarrow> real \<Rightarrow> int \<Rightarrow> bool \<Rightarrow> bool \<Rightarrow> ReasoningResponse" where
  "plain_response i t s d c nx =
     \<lparr> r_nodeId = i, r_thought = t, r_score = s, r_depth = d, r_isComplete = c,
       r_nextThoughtNeeded = nx, r_bestScore = None, r_strategyUsed = None,
       r_openSetSize = None, r_closedSetSize = None, r_estimatedDistanceToGoal = None,
       r_totalCost = None, r_constraintsSatisfied = None, r_unassignedVariables = None,
       r_currentAssignments = None, r_godotData = None, r_blenderData = None,
       r_visualizationData = None, r_error = None, r_errorMessage = None \<rparr>"

datatype ReasoningStrategy = BEAM_SEARCH | MCTS | A_STAR | CONSTRAINT_SATISFACTION | HYBRID

fun strategy_value :: "ReasoningStrategy \<Rightarrow> string" where
  "strategy_value BEAM_SEARCH = ''beam_search''"
| "strategy_value MCTS = ''mcts''"
| "strategy_value A_STAR = ''a_star''"
| "strategy_value CONSTRAINT_SATISFACTION = ''csp''"
| "strategy_value HYBRID = ''hybrid''"

definition CONFIG_cacheSize :: nat where
  "CONFIG_cacheSize = 1000"

definition CONFIG_defaultStrategy :: string where
  "CONFIG_defaultStrategy = ''beam_search''"

section \<open>Thought store (state.ts) and the base strategy's access to it\<close>

datatype store_error = NotFound | CycleDetected

text \<open>
  Modelled from the spec: the class StateManager of state.ts is not among the sources.
  Its node table is a flat table keyed by node id, held here oldest insertion first,
  together with the capacity bound given to the constructor.
\<close>

record StateManager =
  nodes :: "ThoughtNode list"
  capacity :: nat

definition StateManager_new :: "nat \<Rightarrow> StateManager" where
  "StateManager_new cacheSize = \<lparr> nodes = [], capacity = cacheSize \<rparr>"

text \<open>
  Modelled from the spec: the point lookup \<open>get(id)\<close> of the missing state.ts; it gives
  the node or not-found.
\<close>

definition store_get :: "StateManager \<Rightarrow> string \<Rightarrow> ThoughtNode option" where
  "store_get sm i = find (\<lambda>n. n_id n = i) (nodes sm)"

text \<open>
  Modelled from the spec: \<open>put(node)\<close> of the missing state.ts, insert or overwrite by
  id. An overwrite keeps the node's place; an insertion that takes the table over its
  capacity evicts the least recently inserted nodes first.
\<close>

definition store_put :: "StateManager \<Rightarrow> ThoughtNode \<Rightarrow> StateManager" where
  "store_put sm node =
     (if store_get sm (n_id node) \<noteq> None
      then sm\<lparr> nodes := map (\<lambda>n. if n_id n = n_id node then node else n) (nodes sm) \<rparr>
      else sm\<lparr> nodes := drop (Suc (length (nodes sm)) - capacity sm) (nodes sm @ [node]) \<rparr>)"

text \<open>
  Modelled from the spec: \<open>getAll()\<close> of the missing state.ts, the sequence of all
  nodes.
\<close>

definition getAllNodes :: "StateManager \<Rightarrow> ThoughtNode list" where
  "getAllNodes sm = nodes sm"

text \<open>Modelled from the spec: \<open>clear()\<close> of the missing state.ts.\<close>

definition store_clear :: "StateManager \<Rightarrow> StateManager" where
  "store_clear sm = sm\<lparr> nodes := [] \<rparr>"

text \<open>
  Modelled from the spec: the walk of \<open>getPath\<close> in the missing state.ts. It follows
  the \<open>parentId\<close> links upward, putting each node in front of those found so far, and
  ends at a node without parent or at a parent id that the store does not hold. The walk
  may take as many nodes as the store's capacity; needing one more is \<open>CycleDetected\<close>.
\<close>

fun walk_up :: "nat \<Rightarrow> StateManager \<Rightarrow> string \<Rightarrow> ThoughtNode list \<Rightarrow> store_error + ThoughtNode list" where
  "walk_up 0 sm i acc = (if store_get sm i = None then Inr acc else Inl CycleDetected)"
| "walk_up (Suc fuel) sm i acc =
     (case store_get sm i of
        None \<Rightarrow> Inr acc
      | Some n \<Rightarrow>
          (case n_parentId n of
             None \<Rightarrow> Inr (n # acc)
           | Some p \<Rightarrow> walk_up fuel sm p (n # acc)))"

text \<open>
  Modelled from the spec: \<open>getPath(id)\<close> of the missing state.ts, the nodes from the
  root to \<open>id\<close>; it fails with \<open>NotFound\<close> if \<open>id\<close> is absent and with
  \<open>CycleDetected\<close> if the walk over the parent links exceeds the capacity.
\<close>

definition getPath :: "StateManager \<Rightarrow> string \<Rightarrow> store_error + ThoughtNode list" where
  "getPath sm i =
     (if store_get sm i = None then Inl NotFound else walk_up (capacity sm) sm i [])"

text \<open>
  Modelled from the spec: \<open>getNode\<close> of the missing base.ts (class BaseStrategy), the
  strategy's point lookup on the shared store. A lookup that finds nothing gives
  \<^verbatim>\<open>undefined\<close>, here \<open>None\<close>.
\<close>

definition getNode :: "StateManager \<Rightarrow> string \<Rightarrow> ThoughtNode option" where
  "getNode sm i = store_get sm i"

text \<open>
  Modelled from the spec: \<open>saveNode\<close> of the missing base.ts (class BaseStrategy), the
  strategy's insert-or-update on the shared store.
\<close>

definition saveNode :: "StateManager \<Rightarrow> ThoughtNode \<Rightarrow> StateManager" where
  "saveNode sm node = store_put sm node"

text \<open>
  \<^verbatim>\<open>request.parentId ? await this.getNode(request.parentId) : undefined\<close>: an absent or
  empty parent id is falsy and no lookup is made.
\<close>

definition lookupParent :: "StateManager \<Rightarrow> ReasoningRequest \<Rightarrow> ThoughtNode option" where
  "lookupParent sm request =
     (case parentId request of
        None \<Rightarrow> None
      | Some p \<Rightarrow> if p = [] then None else getNode sm p)"

text \<open>
  \<^verbatim>\<open>parentNode.children.push(node.id); await this.saveNode(parentNode)\<close>, guarded by
  \<^verbatim>\<open>if (parentNode)\<close>.
\<close>

definition updateParent :: "StateManager \<Rightarrow> ThoughtNode option \<Rightarrow> ThoughtNode \<Rightarrow> StateManager" where
  "updateParent sm parentNode node =
     (case parentNode of
        None \<Rightarrow> sm
      | Some pn \<Rightarrow> saveNode sm (pn\<lparr> n_children := n_children pn @ [n_id node] \<rparr>))"

text \<open>\<^verbatim>\<open>path.reduce((acc, n) => acc + n.score, 0)\<close>\<close>

definition pathScore :: "ThoughtNode list \<Rightarrow> real" where
  "pathScore path = foldl (\<lambda>acc n. acc + n_score n) 0 path"

section \<open>A* search strategy (a-star.ts)\<close>

text \<open>
  The two \<^verbatim>\<open>Map<string, ThoughtNode>\<close> are association lists in insertion order:
  \<^verbatim>\<open>set\<close> is \<open>AList.update\<close> (an existing key keeps its place, a new one goes
  last), \<^verbatim>\<open>delete\<close> is \<open>AList.delete\<close>. The node held by a set is the node as it
  was when it was put there; of its fields the strategy reads only the id, the score, the
  heuristic value and the completion flag, none of which changes after creation.
\<close>

record AStar =
  openSet :: "(string \<times> ThoughtNode) list"
  closedSet :: "(string \<times> ThoughtNode) list"

definition AStar_new :: AStar where
  "AStar_new = \<lparr> openSet = [], closedSet = [] \<rparr>"

definition AStar_clear :: "AStar \<Rightarrow> AStar" where
  "AStar_clear a = a\<lparr> openSet := [], closedSet := [] \<rparr>"

text \<open>\<^verbatim>\<open>node.heuristicValue || 0\<close>\<close>

definition heuristic_or_0 :: "ThoughtNode \<Rightarrow> real" where
  "heuristic_or_0 node = (case n_heuristicValue node of None \<Rightarrow> 0 | Some h \<Rightarrow> h)"

definition calculateHeuristic :: "ThoughtNode \<Rightarrow> ReasoningRequest \<Rightarrow> real" where
  "calculateHeuristic node request =
     (let totalSteps = (if totalThoughts request = 0 then 10 else totalThoughts request);
          remainingSteps = totalSteps - n_depth node;
          qualityFactor = 1 - n_score node / 10
      in real_of_int remainingSteps * qualityFactor)"

text \<open>
  The loop of \<^verbatim>\<open>_processAStarStep\<close> over \<^verbatim>\<open>openSet.values()\<close>, carrying
  \<^verbatim>\<open>currentNode\<close> and \<^verbatim>\<open>lowestF\<close>. A failing path lookup ends the call.
\<close>

fun lowestF_loop ::
  "StateManager \<Rightarrow> ThoughtNode list \<Rightarrow> ThoughtNode option \<Rightarrow> jsnum \<Rightarrow>
     store_error + (ThoughtNode option \<times> jsnum)" where
  "lowestF_loop sm [] currentNode lowestF = Inr (currentNode, lowestF)"
| "lowestF_loop sm (node # rest) currentNode lowestF =
     (case getPath sm (n_id node) of
        Inl e \<Rightarrow> Inl e
      | Inr path \<Rightarrow>
          (let gScore = pathScore path;
               fScore = gScore + heuristic_or_0 node
           in if js_less (Num fScore) lowestF
              then lowestF_loop sm rest (Some node) (Num fScore)
              else lowestF_loop sm rest currentNode lowestF))"

definition processAStarStep :: "StateManager \<Rightarrow> AStar \<Rightarrow> store_error + AStar" where
  "processAStarStep sm a =
     (if length (openSet a) = 0 then Inr a
      else
        case lowestF_loop sm (map snd (openSet a)) None Infinity of
          Inl e \<Rightarrow> Inl e
        | Inr (None, _) \<Rightarrow> Inr a
        | Inr (Some currentNode, _) \<Rightarrow>
            (let a' = a\<lparr> openSet := AList.delete (n_id currentNode) (openSet a),
                         closedSet := AList.update (n_id currentNode) currentNode (closedSet a) \<rparr>
             in if n_isComplete currentNode then Inr a' else Inr a'))"

text \<open>
  The first block of \<^verbatim>\<open>processThought\<close>: the node literal, then its score, then its
  heuristic value. The id \<^verbatim>\<open>uuidv4()\<close> returns and the scoring function
  \<^verbatim>\<open>evaluateThought\<close> of the missing base.ts are parameters.
\<close>

definition AStar_createNode ::
  "(ThoughtNode \<Rightarrow> ThoughtNode option \<Rightarrow> real) \<Rightarrow> string \<Rightarrow> ReasoningRequest \<Rightarrow>
     ThoughtNode option \<Rightarrow> ThoughtNode" where
  "AStar_createNode evaluateThought nodeId request parentNode =
     (let node0 = \<lparr> n_id = nodeId, n_thought = thought request, n_score = 0,
                    n_depth = thoughtNumber request - 1, n_children = [],
                    n_parentId = parentId request,
                    n_isComplete = (\<not> nextThoughtNeeded request),
                    n_evaluations = Some (case evaluations request of None \<Rightarrow> [] | Some e \<Rightarrow> e),
                    n_simulationResults = None, n_heuristicValue = Some 0,
                    n_constraints = None \<rparr>;
          node1 = node0\<lparr> n_score := evaluateThought node0 parentNode \<rparr>
      in node1\<lparr> n_heuristicValue := Some (calculateHeuristic node1 request) \<rparr>)"

text \<open>
  \<^verbatim>\<open>processThought\<close>. A fault leaves the store and the two sets as they were when it
  was raised, so the result always carries them.
\<close>

definition AStar_processThought ::
  "(ThoughtNode \<Rightarrow> ThoughtNode option \<Rightarrow> real) \<Rightarrow> string \<Rightarrow> ReasoningRequest \<Rightarrow>
     StateManager \<Rightarrow> AStar \<Rightarrow> (store_error + ReasoningResponse) \<times> StateManager \<times> AStar" where
  "AStar_processThought evaluateThought nodeId request sm a =
     (let parentNode = lookupParent sm request;
          node = AStar_createNode evaluateThought nodeId request parentNode;
          sm1 = saveNode sm node;
          sm2 = updateParent sm1 parentNode node;
          a1 = a\<lparr> openSet := AList.update (n_id node) node (openSet a) \<rparr>
      in case processAStarStep sm2 a1 of
           Inl e \<Rightarrow> (Inl e, sm2, a1)
         | Inr a2 \<Rightarrow>
             (case getPath sm2 nodeId of
                Inl e \<Rightarrow> (Inl e, sm2, a2)
              | Inr currentPath \<Rightarrow>
                  (Inr ((plain_response (n_id node) (n_thought node) (n_score node) (n_depth node)
                           (n_isComplete node) (nextThoughtNeeded request))
                        \<lparr> r_openSetSize := Some (length (openSet a2)),
                          r_closedSetSize := Some (length (closedSet a2)),
                          r_estimatedDistanceToGoal := n_heuristicValue node,
                          r_totalCost := Some (pathScore currentPath + heuristic_or_0 node),
                          r_bestScore := Some (Math_max (map (\<lambda>n. n_score n) (map snd (openSet a2)))) \<rparr>),
                   sm2, a2)))"

text \<open>
  A run of \<^verbatim>\<open>processThought\<close> calls on one strategy object, each with the id that
  \<^verbatim>\<open>uuidv4()\<close> gave it. A call that ends in a fault keeps its effects, and the caller
  goes on with the next request.
\<close>

fun AStar_run ::
  "(ThoughtNode \<Rightarrow> ThoughtNode option \<Rightarrow> real) \<Rightarrow> (string \<times> ReasoningRequest) list \<Rightarrow>
     StateManager \<times> AStar \<Rightarrow> StateManager \<times> AStar" where
  "AStar_run evaluateThought [] s = s"
| "AStar_run evaluateThought ((nodeId, request) # rest) (sm, a) =
     AStar_run evaluateThought rest (snd (AStar_processThought evaluateThought nodeId request sm a))"

section \<open>Constraint satisfaction strategy (constraint-satisfaction.ts)\<close>

text \<open>
  The three maps of the strategy, in insertion order. A constraint function takes the
  value of its variable and the object of all assignments; its result is read as a boolean.
  The field \<open>csp_constraints\<close> is the member \<^verbatim>\<open>constraints\<close>.
\<close>

record CSP =
  domains :: "(string \<times> json) list"
  csp_constraints :: "(string \<times> (json \<Rightarrow> (string \<times> json) list \<Rightarrow> bool) list) list"
  assignments :: "(string \<times> json) list"

definition CSP_new :: CSP where
  "CSP_new = \<lparr> domains = [], csp_constraints = [], assignments = [] \<rparr>"

definition CSP_clear :: "CSP \<Rightarrow> CSP" where
  "CSP_clear c = c\<lparr> domains := [], csp_constraints := [], assignments := [] \<rparr>"

fun check_functions ::
  "json \<Rightarrow> (string \<times> json) list \<Rightarrow> (json \<Rightarrow> (string \<times> json) list \<Rightarrow> bool) list \<Rightarrow> bool" where
  "check_functions v asg [] = True"
| "check_functions v asg (constraint # rest) =
     (if \<not> constraint v asg then False else check_functions v asg rest)"

fun check_entries ::
  "(string \<times> json) list \<Rightarrow> (string \<times> (json \<Rightarrow> (string \<times> json) list \<Rightarrow> bool) list) list \<Rightarrow> bool" where
  "check_entries asg [] = True"
| "check_entries asg ((variable, constraintFunctions) # rest) =
     (case map_of asg variable of
        None \<Rightarrow> check_entries asg rest
      | Some v \<Rightarrow>
          if check_functions v asg constraintFunctions then check_entries asg rest else False)"

definition checkConstraints :: "CSP \<Rightarrow> bool" where
  "checkConstraints c = check_entries (assignments c) (csp_constraints c)"

definition getUnassignedVariables :: "CSP \<Rightarrow> string list" where
  "getUnassignedVariables c =
     filter (\<lambda>variable. map_of (assignments c) variable = None) (map fst (domains c))"

text \<open>\<^verbatim>\<open>for (const [k, v] of entries) map.set(k, v)\<close>\<close>

definition set_all :: "(string \<times> json) list \<Rightarrow> (string \<times> json) list \<Rightarrow> (string \<times> json) list" where
  "set_all m entries = foldl (\<lambda>acc (k, v). AList.update k v acc) m entries"

text \<open>The node literal of \<^verbatim>\<open>processThought\<close> and its score.\<close>

definition CSP_createNode ::
  "(ThoughtNode \<Rightarrow> ThoughtNode option \<Rightarrow> real) \<Rightarrow> string \<Rightarrow> ReasoningRequest \<Rightarrow>
     ThoughtNode option \<Rightarrow> ThoughtNode" where
  "CSP_createNode evaluateThought nodeId request parentNode =
     (let node0 = \<lparr> n_id = nodeId, n_thought = thought request, n_score = 0,
                    n_depth = thoughtNumber request - 1, n_children = [],
                    n_parentId = parentId request,
                    n_isComplete = (\<not> nextThoughtNeeded request),
                    n_evaluations = Some (case evaluations request of None \<Rightarrow> [] | Some e \<Rightarrow> e),
                    n_simulationResults = None, n_heuristicValue = None,
                    n_constraints = Some (case constraints request of None \<Rightarrow> [] | Some cs \<Rightarrow> cs) \<rparr>
      in node0\<lparr> n_score := evaluateThought node0 parentNode \<rparr>)"

text \<open>
  The block "extract and process constraints": the entries of \<^verbatim>\<open>domains\<close> and of
  \<^verbatim>\<open>assignments\<close> are written into the two maps; nothing is written into
  \<^verbatim>\<open>this.constraints\<close>.
\<close>

definition extractConstraints :: "ThoughtNode \<Rightarrow> CSP \<Rightarrow> CSP" where
  "extractConstraints node c =
     (case n_constraints node of
        None \<Rightarrow> c
      | Some cs \<Rightarrow>
          (let c1 = c\<lparr> domains := set_all (domains c) (entries_or_empty (map_of cs ''domains'')) \<rparr>
           in c1\<lparr> assignments :=
                    set_all (assignments c1) (entries_or_empty (map_of cs ''assignments'')) \<rparr>))"

definition CSP_processThought ::
  "(ThoughtNode \<Rightarrow> ThoughtNode option \<Rightarrow> real) \<Rightarrow> string \<Rightarrow> ReasoningRequest \<Rightarrow>
     StateManager \<Rightarrow> CSP \<Rightarrow> ReasoningResponse \<times> StateManager \<times> CSP" where
  "CSP_processThought evaluateThought nodeId request sm c =
     (let parentNode = lookupParent sm request;
          node = CSP_createNode evaluateThought nodeId request parentNode;
          sm1 = saveNode sm node;
          sm2 = updateParent sm1 parentNode node;
          c2 = extractConstraints node c;
          constraintsSatisfied = checkConstraints c2;
          unassignedVariables = getUnassignedVariables c2
      in ((plain_response (n_id node) (n_thought node) (n_score node) (n_depth node)
             (n_isComplete node) (nextThoughtNeeded request))
          \<lparr> r_constraintsSatisfied := Some constraintsSatisfied,
            r_unassignedVariables := Some unassignedVariables,
            r_currentAssignments := Some (assignments c2),
            r_bestScore := Some (Num (max (n_score node)
                                  (case parentNode of None \<Rightarrow> 0 | Some pn \<Rightarrow> n_score pn))) \<rparr>,
          sm2, c2))"

text \<open>\<^verbatim>\<open>node.isComplete && node.constraints?.satisfied === true\<close>\<close>

definition satisfying :: "ThoughtNode \<Rightarrow> bool" where
  "satisfying node =
     (n_isComplete node \<and>
      (case n_constraints node of
         None \<Rightarrow> False
       | Some cs \<Rightarrow> map_of cs ''satisfied'' = Some (JBool True)))"

text \<open>\<^verbatim>\<open>xs.reduce((best, current) => current.score > best.score ? current : best, init)\<close>\<close>

definition reduce_best :: "ThoughtNode list \<Rightarrow> ThoughtNode \<Rightarrow> ThoughtNode" where
  "reduce_best xs init =
     foldl (\<lambda>best current. if n_score current > n_score best then current else best) init xs"

definition CSP_getBestPath :: "StateManager \<Rightarrow> store_error + ThoughtNode list" where
  "CSP_getBestPath sm =
     (let allNodes = getAllNodes sm;
          satisfyingNodes = filter satisfying allNodes
      in if length satisfyingNodes = 0
         then (case allNodes of
                 [] \<Rightarrow> Inr []
               | first # _ \<Rightarrow> getPath sm (n_id (reduce_best allNodes first)))
         else getPath sm (n_id (reduce_best satisfyingNodes (hd satisfyingNodes))))"

text \<open>
  \<^verbatim>\<open>getMetrics\<close>: the metrics of the missing base class are a parameter, and the four
  fields written after the spread replace entries of the same name. A domain's
  \<^verbatim>\<open>length\<close> is that of an array or a string; with any other domain the JavaScript sum
  is not a sum of lengths, and the average is \<open>None\<close>.
\<close>

record CSPMetrics =
  m_baseMetrics :: "(string \<times> json) list"
  m_variablesCount :: nat
  m_assignedVariables :: nat
  m_constraintsSatisfied :: bool
  m_averageDomainSize :: "real option"

fun js_length :: "json \<Rightarrow> real option" where
  "js_length (JArr xs) = Some (real (length xs))"
| "js_length (JStr s) = Some (real (length s))"
| "js_length _ = None"

definition CSP_getMetrics :: "(string \<times> json) list \<Rightarrow> CSP \<Rightarrow> CSPMetrics" where
  "CSP_getMetrics baseMetrics c =
     \<lparr> m_baseMetrics = baseMetrics,
       m_variablesCount = length (domains c),
       m_assignedVariables = length (assignments c),
       m_constraintsSatisfied = checkConstraints c,
       m_averageDomainSize =
         map_option (\<lambda>ls. foldl (\<lambda>sum l. sum + l) 0 ls / real (max 1 (length (domains c))))
           (those (map (\<lambda>(variable, domain). js_length domain) (domains c))) \<rparr>"

text \<open>
  The operations a caller can apply to the strategy object, and a run of them. The two
  queries change nothing. \<^verbatim>\<open>clear\<close> empties the three maps after
  \<^verbatim>\<open>super.clear()\<close>, which is taken to empty the shared store, as the specification
  says of a clear.
\<close>

datatype CSP_op = ProcessThought string ReasoningRequest | GetMetrics | GetBestPath | Clear

fun CSP_apply ::
  "(ThoughtNode \<Rightarrow> ThoughtNode option \<Rightarrow> real) \<Rightarrow> CSP_op \<Rightarrow> StateManager \<times> CSP \<Rightarrow> StateManager \<times> CSP" where
  "CSP_apply evaluateThought (ProcessThought nodeId request) (sm, c) =
     snd (CSP_processThought evaluateThought nodeId request sm c)"
| "CSP_apply evaluateThought GetMetrics (sm, c) = (sm, c)"
| "CSP_apply evaluateThought GetBestPath (sm, c) = (sm, c)"
| "CSP_apply evaluateThought Clear (sm, c) = (store_clear sm, CSP_clear c)"

definition CSP_run ::
  "(ThoughtNode \<Rightarrow> ThoughtNode option \<Rightarrow> real) \<Rightarrow> CSP_op list \<Rightarrow> StateManager \<times> CSP \<Rightarrow> StateManager \<times> CSP" where
  "CSP_run evaluateThought ops s = foldl (\<lambda>s' op. CSP_apply evaluateThought op s') s ops"


section \<open>Hybrid strategy (hybrid.ts, in the file of the constraint strategy)\<close>

text \<open>
  The Hybrid creates one object of each of four strategies and holds them in a map under
  the enum's string values; \<^verbatim>\<open>activeStrategy\<close> points to one of them. An object is
  named here by the kind it was created for.
\<close>

record Thresholds =
  uncertaintyThreshold :: real
  goalClarityThreshold :: real
  constraintDensityThreshold :: real

record Hybrid =
  hybrid_strategies :: "(string \<times> ReasoningStrategy) list"
  activeStrategy :: ReasoningStrategy
  strategySwitchThresholds :: Thresholds

definition Hybrid_new :: Hybrid where
  "Hybrid_new =
     \<lparr> hybrid_strategies =
         [(strategy_value BEAM_SEARCH, BEAM_SEARCH),
          (strategy_value MCTS, MCTS),
          (strategy_value A_STAR, A_STAR),
          (strategy_value CONSTRAINT_SATISFACTION, CONSTRAINT_SATISFACTION)],
       activeStrategy = BEAM_SEARCH,
       strategySwitchThresholds =
         \<lparr> uncertaintyThreshold = 0.3, goalClarityThreshold = 0.7,
           constraintDensityThreshold = 5 \<rparr> \<rparr>"

definition switchStrategy :: "string \<Rightarrow> Hybrid \<Rightarrow> Hybrid" where
  "switchStrategy strategy h =
     (case map_of (hybrid_strategies h) strategy of
        None \<Rightarrow> h
      | Some s \<Rightarrow> h\<lparr> activeStrategy := s \<rparr>)"

definition calculateUncertainty :: "StateManager \<Rightarrow> real" where
  "calculateUncertainty sm =
     (let ns = getAllNodes sm
      in if length ns < 2 then 0.5
         else
           (let recentNodes = drop (length ns - 10) ns;
                scores = map (\<lambda>n. n_score n) recentNodes;
                mean = foldl (\<lambda>a b. a + b) 0 scores / real (length scores);
                variance = foldl (\<lambda>a b. a + (b - mean)\<^sup>2) 0 scores / real (length scores)
            in min 1 (variance / 5)))"

definition calculateGoalClarity :: "ReasoningRequest \<Rightarrow> real" where
  "calculateGoalClarity request =
     (let hasMetrics = (case evaluationMetrics request of None \<Rightarrow> False | Some ms \<Rightarrow> length ms > 0);
          hasEndpoint = (totalThoughts request > 0);
          hasHeuristics = True;
          clarity0 = 0;
          clarity1 = (if hasMetrics then clarity0 + 0.4 else clarity0);
          clarity2 = (if hasEndpoint then clarity1 + 0.3 else clarity1);
          clarity3 = (if hasHeuristics then clarity2 + 0.3 else clarity2)
      in clarity3)"

text \<open>
  \<^verbatim>\<open>toLowerCase\<close> on the letters A to Z (other characters are left as they are) and
  \<^verbatim>\<open>includes\<close> (here \<open>str_includes\<close>), the test for a contiguous occurrence.
\<close>

definition toLowerCase :: "string \<Rightarrow> string" where
  "toLowerCase s =
     map (\<lambda>c. if 65 \<le> (of_char c :: nat) \<and> (of_char c :: nat) \<le> 90
               then char_of ((of_char c :: nat) + 32) else c) s"

fun startsWith :: "string \<Rightarrow> string \<Rightarrow> bool" where
  "startsWith s [] = True"
| "startsWith [] (k # ks) = False"
| "startsWith (c # cs) (k # ks) = (c = k \<and> startsWith cs ks)"

fun str_includes :: "string \<Rightarrow> string \<Rightarrow> bool" where
  "str_includes [] keyword = (keyword = [])"
| "str_includes (c # cs) keyword = (startsWith (c # cs) keyword \<or> str_includes cs keyword)"

definition constraintKeywords :: "string list" where
  "constraintKeywords = [''must'', ''should'', ''required'', ''necessary'', ''constraint'']"

definition calculateConstraintDensity :: "ReasoningRequest \<Rightarrow> nat" where
  "calculateConstraintDensity request =
     (let count0 = 0;
          count1 = (case constraints request of
                      None \<Rightarrow> count0
                    | Some cs \<Rightarrow> count0 + length cs);
          count2 = (if thought request \<noteq> []
                    then foldl (\<lambda>n keyword.
                           if str_includes (toLowerCase (thought request)) keyword then n + 1 else n)
                         count1 constraintKeywords
                    else count1)
      in count2)"

text \<open>
  The body of \<^verbatim>\<open>_evaluateStrategySwitch\<close> after the three signals are computed, as
  a function of them: the chain of comparisons ("decision logic for switching"), then
  the explicit request.
\<close>

definition automaticSwitch :: "real \<Rightarrow> real \<Rightarrow> real \<Rightarrow> Hybrid \<Rightarrow> Hybrid" where
  "automaticSwitch uncertainty goalClarity constraintDensity h =
     (if constraintDensity \<ge> constraintDensityThreshold (strategySwitchThresholds h)
      then switchStrategy (strategy_value CONSTRAINT_SATISFACTION) h
      else if goalClarity \<ge> goalClarityThreshold (strategySwitchThresholds h)
      then switchStrategy (strategy_value A_STAR) h
      else if uncertainty \<ge> uncertaintyThreshold (strategySwitchThresholds h)
      then switchStrategy (strategy_value MCTS) h
      else switchStrategy (strategy_value BEAM_SEARCH) h)"

definition switchDecision ::
  "real \<Rightarrow> real \<Rightarrow> real \<Rightarrow> ReasoningRequest \<Rightarrow> Hybrid \<Rightarrow> Hybrid" where
  "switchDecision uncertainty goalClarity constraintDensity request h =
     (let h1 = automaticSwitch uncertainty goalClarity constraintDensity h
      in case strategyType request of
           None \<Rightarrow> h1
         | Some s \<Rightarrow> if s = [] then h1 else switchStrategy s h1)"

definition evaluateStrategySwitch :: "StateManager \<Rightarrow> ReasoningRequest \<Rightarrow> Hybrid \<Rightarrow> Hybrid" where
  "evaluateStrategySwitch sm request h =
     (let uncertainty = calculateUncertainty sm;
          goalClarity = calculateGoalClarity request;
          constraintDensity = calculateConstraintDensity request
      in switchDecision uncertainty goalClarity (real constraintDensity) request h)"

definition getActiveStrategyName :: "Hybrid \<Rightarrow> string" where
  "getActiveStrategyName h =
     (case find (\<lambda>(name, strategy). strategy = activeStrategy h) (hybrid_strategies h) of
        Some (name, strategy) \<Rightarrow> name
      | None \<Rightarrow> strategy_value BEAM_SEARCH)"

section \<open>Strategy factory and Reasoner (factory.js, reasoner.ts)\<close>

text \<open>What a \<^verbatim>\<open>catch\<close> clause can receive: an \<^verbatim>\<open>Error\<close> with its message, or any other value.\<close>

datatype thrown = ErrorInstance string | NonError json

definition UnknownStrategy :: "string \<Rightarrow> thrown" where
  "UnknownStrategy t = ErrorInstance (''Unknown strategy type: '' @ t)"

definition createStrategy :: "string \<Rightarrow> thrown + ReasoningStrategy" where
  "createStrategy t =
     (if t = strategy_value BEAM_SEARCH then Inr BEAM_SEARCH
      else if t = strategy_value MCTS then Inr MCTS
      else if t = strategy_value A_STAR then Inr A_STAR
      else if t = strategy_value CONSTRAINT_SATISFACTION then Inr CONSTRAINT_SATISFACTION
      else if t = strategy_value HYBRID then Inr HYBRID
      else Inl (UnknownStrategy t))"

record Reasoner =
  reasoner_strategies :: "(string \<times> ReasoningStrategy) list"
  currentStrategy :: ReasoningStrategy

text \<open>
  The constructor: five \<^verbatim>\<open>strategies.set(k, createStrategy(k, ...))\<close>, each of which
  returns the object of its kind, then the default strategy.
\<close>

definition Reasoner_new :: Reasoner where
  "Reasoner_new =
     (let strategies =
            [(strategy_value BEAM_SEARCH, BEAM_SEARCH),
             (strategy_value MCTS, MCTS),
             (strategy_value A_STAR, A_STAR),
             (strategy_value CONSTRAINT_SATISFACTION, CONSTRAINT_SATISFACTION),
             (strategy_value HYBRID, HYBRID)]
      in \<lparr> reasoner_strategies = strategies,
           currentStrategy =
             (case map_of strategies CONFIG_defaultStrategy of
                Some defaultStrategyImpl \<Rightarrow> defaultStrategyImpl
              | None \<Rightarrow> BEAM_SEARCH) \<rparr>)"

definition setStrategy :: "string \<Rightarrow> Reasoner \<Rightarrow> thrown + Reasoner" where
  "setStrategy t r =
     (if map_of (reasoner_strategies r) t = None
      then Inl (UnknownStrategy t)
      else
        (case map_of (reasoner_strategies r) t of
           Some strategy \<Rightarrow> Inr (r\<lparr> currentStrategy := strategy \<rparr>)
         | None \<Rightarrow> Inr r))"

definition getAvailableStrategies :: "Reasoner \<Rightarrow> string list" where
  "getAvailableStrategies r = map fst (reasoner_strategies r)"

section \<open>Engine boundary (engine.ts)\<close>

definition extractGodotData :: "ReasoningResponse \<Rightarrow> json" where
  "extractGodotData response =
     JObj [(''nodeStructure'', JObj []), (''resourcePaths'', JArr []), (''scriptSnippets'', JObj [])]"

definition extractBlenderData :: "ReasoningResponse \<Rightarrow> json" where
  "extractBlenderData response =
     JObj [(''materialStructure'', JObj []), (''assetCategories'', JArr []), (''pipelineSteps'', JArr [])]"

definition generateVisualizationData :: "ReasoningResponse \<Rightarrow> json" where
  "generateVisualizationData response =
     JObj [(''reasoningTreeData'', JObj []), (''metricsData'', JObj []), (''timelineData'', JObj [])]"

definition enhanceGameDevResponse :: "ReasoningResponse \<Rightarrow> ReasoningResponse" where
  "enhanceGameDevResponse response =
     response\<lparr> r_godotData := Some (extractGodotData response),
               r_blenderData := Some (extractBlenderData response),
               r_visualizationData := Some (generateVisualizationData response) \<rparr>"

text \<open>The object literal of the \<^verbatim>\<open>catch\<close> clause.\<close>

definition errorResponse :: "thrown \<Rightarrow> ReasoningResponse" where
  "errorResponse error =
     (plain_response [] [] 0 0 False False)
       \<lparr> r_error := Some True,
         r_errorMessage :=
           Some (case error of
                   ErrorInstance message \<Rightarrow> message
                 | NonError _ \<Rightarrow> ''Unknown error in reasoning engine'') \<rparr>"

text \<open>
  \<^verbatim>\<open>handle\<close>. The call \<^verbatim>\<open>this.reasoner.processThought(request)\<close> is a parameter: a
  function of the request and the reasoner's state that gives a response or the value it
  throws, and the state it leaves. The \<^verbatim>\<open>try\<close> block spans the whole body, so
  \<^verbatim>\<open>handle\<close> has a response on every path.
\<close>

definition handle ::
  "(ReasoningRequest \<Rightarrow> 's \<Rightarrow> (thrown + ReasoningResponse) \<times> 's) \<Rightarrow>
     ReasoningRequest \<Rightarrow> 's \<Rightarrow> ReasoningResponse \<times> 's" where
  "handle processThought request s =
     (let isGameDevRequest = (problemType request \<noteq> None)
      in case processThought request s of
           (Inl error, s') \<Rightarrow> (errorResponse error, s')
         | (Inr response, s') \<Rightarrow>
             if isGameDevRequest then (enhanceGameDevResponse response, s')
             else (response, s'))"


section \<open>Terms of the specification\<close>

text \<open>
  The cost of a node in the A* expansion step, as the specification words it: \<open>g\<close> is
  the sum of the scores of the nodes on the root path of the node, \<open>h\<close> the heuristic
  value stored in it, \<open>f = g + h\<close>.
\<close>

definition g_cost :: "StateManager \<Rightarrow> ThoughtNode \<Rightarrow> real" where
  "g_cost sm n =
     (case getPath sm (n_id n) of
        Inr path \<Rightarrow> sum_list (map n_score path)
      | Inl _ \<Rightarrow> 0)"

definition f_cost :: "StateManager \<Rightarrow> ThoughtNode \<Rightarrow> real" where
  "f_cost sm n = g_cost sm n + (case n_heuristicValue n of Some h \<Rightarrow> h | None \<Rightarrow> 0)"

text \<open>The variance of a sequence of scores: the mean of the squared deviations from the mean.\<close>

definition variance_of :: "real list \<Rightarrow> real" where
  "variance_of xs = (\<Sum>x\<leftarrow>xs. (x - sum_list xs / real (length xs))\<^sup>2) / real (length xs)"

text \<open>The \<open>k\<close> most recent elements of a sequence kept oldest first.\<close>

definition most_recent :: "nat \<Rightarrow> 'a list \<Rightarrow> 'a list" where
  "most_recent k xs = rev (take k (rev xs))"

text \<open>The five strategy identifiers.\<close>

definition registered_identifiers :: "string set" where
  "registered_identifiers = {''beam_search'', ''mcts'', ''a_star'', ''csp'', ''hybrid''}"

text \<open>The fixed priority order of the Hybrid, with the thresholds 5, 0.7 and 0.3.\<close>

definition computed_choice :: "real \<Rightarrow> real \<Rightarrow> real \<Rightarrow> ReasoningStrategy" where
  "computed_choice uncertainty goalClarity constraintDensity =
     (if constraintDensity \<ge> 5 then CONSTRAINT_SATISFACTION
      else if goalClarity \<ge> 0.7 then A_STAR
      else if uncertainty \<ge> 0.3 then MCTS
      else BEAM_SEARCH)"

text \<open>
  The invariant of the two sets of the A* strategy, for the set \<open>ids\<close> of the ids it has
  created: every entry is filed under the id of its node, no key occurs twice, the key sets
  are disjoint and together they are \<open>ids\<close>.
\<close>

definition AStar_inv :: "string set \<Rightarrow> AStar \<Rightarrow> bool" where
  "AStar_inv ids a \<longleftrightarrow>
     (\<forall>(k, n)\<in>set (openSet a). k = n_id n)
     \<and> distinct (map fst (openSet a)) \<and> distinct (map fst (closedSet a))
     \<and> fst ` set (openSet a) \<inter> fst ` set (closedSet a) = {}
     \<and> fst ` set (openSet a) \<union> fst ` set (closedSet a) = ids"

section \<open>Example data\<close>

definition example_node ::
  "string \<Rightarrow> real \<Rightarrow> bool \<Rightarrow> string option \<Rightarrow> real option \<Rightarrow> (string \<times> json) list option \<Rightarrow> ThoughtNode" where
  "example_node i s fin parent h cs =
     \<lparr> n_id = i, n_thought = ''t'', n_score = s, n_depth = 0, n_children = [],
       n_parentId = parent, n_isComplete = fin, n_evaluations = Some [],
       n_simulationResults = None, n_heuristicValue = h, n_constraints = cs \<rparr>"

definition example_request :: "string option \<Rightarrow> string option \<Rightarrow> ReasoningRequest" where
  "example_request parent strategy =
     \<lparr> thought = ''x'', thoughtNumber = 1, totalThoughts = 1, nextThoughtNeeded = False,
       parentId = parent, strategyType = strategy, branchingFactor = None, evaluations = None,
       evaluationMetrics = None, constraints = None, problemType = None \<rparr>"

definition example_score :: "ThoughtNode \<Rightarrow> ThoughtNode option \<Rightarrow> real" where
  "example_score node parentNode = 7"

definition example_store :: "ThoughtNode list \<Rightarrow> StateManager" where
  "example_store ns = \<lparr> nodes = ns, capacity = CONFIG_cacheSize \<rparr>"

text \<open>A request with six constraint keys that asks for the strategy \<open>hybrid\<close>.\<close>

definition six_constraints_request :: ReasoningRequest where
  "six_constraints_request =
     (example_request None (Some ''hybrid''))
       \<lparr> constraints := Some [(''a'', JNull), (''b'', JNull), (''c'', JNull),
                              (''d'', JNull), (''e'', JNull), (''f'', JNull)] \<rparr>"

text \<open>A reasoner call that throws.\<close>

definition failing_processThought ::
  "ReasoningRequest \<Rightarrow> unit \<Rightarrow> (thrown + ReasoningResponse) \<times> unit" where
  "failing_processThought request s = (Inl (ErrorInstance ''boom''), s)"

section \<open>The thought store\<close>

lemma find_replace_same:
  "find (\<lambda>n. n_id n = n_id node) xs \<noteq> None \<Longrightarrow>
   find (\<lambda>n. n_id n = n_id node) (map (\<lambda>n. if n_id n = n_id node then node else n) xs) = Some node"
  by (induction xs) auto

lemma find_append_None: "find P ys = None \<Longrightarrow> find P (ys @ zs) = find P zs"
  by (induction ys) (auto split: if_splits)

lemma find_append_last:
  assumes "find P xs = None" "P x"
  shows "find P (drop k xs @ [x]) = Some x"
proof -
  have "find P (drop k xs) = None"
    using assms(1) by (auto simp: find_None_iff dest: in_set_dropD)
  then show ?thesis using assms(2) by (simp add: find_append_None)
qed

text \<open>With room for at least one node, a node that was just put is found under its id.\<close>

lemma store_get_put_same:
  assumes "0 < capacity sm"
  shows "store_get (store_put sm node) (n_id node) = Some node"
proof (cases "store_get sm (n_id node) = None")
  case True
  have "Suc (length (nodes sm)) - capacity sm \<le> length (nodes sm)" using assms by arith
  with True show ?thesis
    by (simp add: store_put_def store_get_def find_append_last)
next
  case False
  then show ?thesis
    by (simp add: store_put_def store_get_def find_replace_same)
qed

lemma capacity_store_put: "capacity (store_put sm node) = capacity sm"
  by (simp add: store_put_def)

lemma store_get_id: "store_get sm i = Some n \<Longrightarrow> n_id n = i"
  by (auto simp: store_get_def find_Some_iff)

lemma walk_up_pos:
  "0 < fuel \<Longrightarrow> walk_up fuel sm i acc =
     (case store_get sm i of
        None \<Rightarrow> Inr acc
      | Some n \<Rightarrow>
          (case n_parentId n of
             None \<Rightarrow> Inr (n # acc)
           | Some p \<Rightarrow> walk_up (fuel - 1) sm p (n # acc)))"
  by (cases fuel) (simp_all split: option.splits)

lemma walk_up_suffix: "walk_up fuel sm i acc = Inr p \<Longrightarrow> \<exists>pre. p = pre @ acc"
proof (induction fuel arbitrary: i acc)
  case 0
  then show ?case by (simp split: if_splits)
next
  case (Suc fuel)
  show ?case
  proof (cases "store_get sm i")
    case None
    with Suc.prems show ?thesis by simp
  next
    case (Some n)
    show ?thesis
    proof (cases "n_parentId n")
      case None
      with Suc.prems Some show ?thesis by auto
    next
      case (Some q)
      with Suc.prems \<open>store_get sm i = Some n\<close> have "walk_up fuel sm q (n # acc) = Inr p" by simp
      from Suc.IH[OF this] obtain pre where "p = pre @ n # acc" by blast
      then have "p = (pre @ [n]) @ acc" by simp
      then show ?thesis by blast
    qed
  qed
qed

text \<open>A path that was reconstructed is not empty and ends at the node asked for.\<close>

lemma getPath_ends_at:
  assumes "getPath sm i = Inr p"
  shows "p \<noteq> [] \<and> n_id (last p) = i"
proof -
  from assms obtain n where n: "store_get sm i = Some n"
    by (auto simp: getPath_def split: if_splits)
  from assms have w: "walk_up (capacity sm) sm i [] = Inr p"
    by (simp add: getPath_def split: if_splits)
  have "\<exists>pre. p = pre @ [n]"
  proof (cases "capacity sm")
    case 0
    with w n show ?thesis by simp
  next
    case (Suc fuel)
    show ?thesis
    proof (cases "n_parentId n")
      case None
      with w n Suc show ?thesis by auto
    next
      case (Some q)
      with w n Suc have "walk_up fuel sm q [n] = Inr p" by simp
      from walk_up_suffix[OF this] show ?thesis .
    qed
  qed
  then obtain pre where "p = pre @ [n]" by blast
  with n show ?thesis by (simp add: store_get_id)
qed

lemma updateParent_children:
  assumes "0 < capacity sm" "store_get sm0 p = Some parent"
  shows "store_get (updateParent sm (Some parent) node) p =
           Some (parent\<lparr> n_children := n_children parent @ [n_id node] \<rparr>)"
proof -
  let ?pn = "parent\<lparr> n_children := n_children parent @ [n_id node] \<rparr>"
  have "n_id ?pn = p" using assms(2) by (simp add: store_get_id)
  with store_get_put_same[OF assms(1), of ?pn] show ?thesis
    by (simp add: updateParent_def saveNode_def)
qed

lemma lookupParent_present:
  "parentId req = Some p \<Longrightarrow> p \<noteq> [] \<Longrightarrow> lookupParent sm req = store_get sm p"
  by (simp add: lookupParent_def getNode_def)

section \<open>Node creation and the parent link\<close>

lemma AStar_createNode_id [simp]: "n_id (AStar_createNode ev nid req pn) = nid"
  by (simp add: AStar_createNode_def Let_def)

lemma CSP_createNode_id [simp]: "n_id (CSP_createNode ev nid req pn) = nid"
  by (simp add: CSP_createNode_def Let_def)

lemma AStar_processThought_store:
  "fst (snd (AStar_processThought ev nid req sm a)) =
     updateParent (saveNode sm (AStar_createNode ev nid req (lookupParent sm req)))
       (lookupParent sm req) (AStar_createNode ev nid req (lookupParent sm req))"
  by (simp add: AStar_processThought_def Let_def split: sum.splits)

lemma CSP_processThought_store:
  "fst (snd (CSP_processThought ev nid req sm c)) =
     updateParent (saveNode sm (CSP_createNode ev nid req (lookupParent sm req)))
       (lookupParent sm req) (CSP_createNode ev nid req (lookupParent sm req))"
  by (simp add: CSP_processThought_def Let_def)

lemma AStar_processThought_nodeId:
  "fst (AStar_processThought ev nid req sm a) = Inr r \<Longrightarrow> r_nodeId r = nid"
  by (auto simp: AStar_processThought_def Let_def plain_response_def split: sum.splits)

lemma CSP_processThought_nodeId:
  "r_nodeId (fst (CSP_processThought ev nid req sm c)) = nid"
  by (simp add: CSP_processThought_def Let_def plain_response_def)

text \<open>
  Claim C1. A request whose \<open>parentId\<close> names a node of the store (node ids are
  non-empty strings, and the store has room for at least one node) is handled by the A*
  and by the CSP strategy so that afterwards the store holds that parent with its
  \<open>children\<close> extended at the end by exactly the id of the node created for the
  request, and otherwise unchanged; the response names the same id.
\<close>

theorem C1_parent_gains_exactly_the_new_child:
  assumes "parentId req = Some p" and "p \<noteq> []"
    and "store_get sm p = Some parent" and "0 < capacity sm"
  shows "store_get (fst (snd (AStar_processThought ev nid req sm a))) p =
           Some (parent\<lparr> n_children := n_children parent @ [nid] \<rparr>)
       \<and> store_get (fst (snd (CSP_processThought ev nid req sm c))) p =
           Some (parent\<lparr> n_children := n_children parent @ [nid] \<rparr>)
       \<and> r_nodeId (fst (CSP_processThought ev nid req sm c)) = nid
       \<and> (\<forall>r. fst (AStar_processThought ev nid req sm a) = Inr r \<longrightarrow> r_nodeId r = nid)"
proof -
  have lp: "lookupParent sm req = Some parent"
    using assms by (simp add: lookupParent_present)
  have cap: "\<And>node. 0 < capacity (saveNode sm node)"
    using assms(4) by (simp add: saveNode_def capacity_store_put)
  have 1: "store_get (fst (snd (AStar_processThought ev nid req sm a))) p =
           Some (parent\<lparr> n_children := n_children parent @ [nid] \<rparr>)"
    using updateParent_children[OF cap assms(3)] lp
    by (simp add: AStar_processThought_store)
  have 2: "store_get (fst (snd (CSP_processThought ev nid req sm c))) p =
           Some (parent\<lparr> n_children := n_children parent @ [nid] \<rparr>)"
    using updateParent_children[OF cap assms(3)] lp
    by (simp add: CSP_processThought_store)
  show ?thesis
    using 1 2 CSP_processThought_nodeId AStar_processThought_nodeId by blast
qed

theorem C1_witness:
  "store_get (fst (snd (AStar_processThought example_score ''n1''
       (example_request (Some ''p'') None)
       (example_store [example_node ''p'' 5 False None None None]) AStar_new))) ''p''
     = Some ((example_node ''p'' 5 False None None None)\<lparr> n_children := [''n1''] \<rparr>)
   \<and> store_get (fst (snd (CSP_processThought example_score ''n1''
       (example_request (Some ''p'') None)
       (example_store [example_node ''p'' 5 False None None None]) CSP_new))) ''p''
     = Some ((example_node ''p'' 5 False None None None)\<lparr> n_children := [''n1''] \<rparr>)"
proof -
  let ?parent = "example_node ''p'' 5 False None None None"
  have h1: "parentId (example_request (Some ''p'') None) = Some ''p''"
    by (simp add: example_request_def)
  have h2: "''p'' \<noteq> []" by simp
  have h3: "store_get (example_store [?parent]) ''p'' = Some ?parent"
    by (simp add: store_get_def example_store_def example_node_def)
  have h4: "0 < capacity (example_store [?parent])"
    by (simp add: example_store_def CONFIG_cacheSize_def)
  have c: "n_children ?parent = []" by (simp add: example_node_def)
  from C1_parent_gains_exactly_the_new_child[OF h1 h2 h3 h4, of example_score "''n1''" AStar_new CSP_new]
  show ?thesis by (simp add: c)
qed

section \<open>The A* expansion step\<close>

lemma foldl_plus_score: "foldl (\<lambda>acc n. acc + n_score n) a path = a + sum_list (map n_score path)"
  by (induction path arbitrary: a) auto

lemma pathScore_sum: "pathScore path = sum_list (map n_score path)"
  by (simp add: pathScore_def foldl_plus_score)

lemma fScore_f_cost:
  "getPath sm (n_id n) = Inr path \<Longrightarrow> pathScore path + heuristic_or_0 n = f_cost sm n"
  by (simp add: f_cost_def g_cost_def pathScore_sum heuristic_or_0_def)

lemma lowestF_loop_Some:
  assumes "\<forall>n\<in>set ns. \<exists>p. getPath sm (n_id n) = Inr p"
  shows "\<exists>c'. lowestF_loop sm ns (Some c) (Num (f_cost sm c)) = Inr (Some c', Num (f_cost sm c'))
           \<and> c' \<in> insert c (set ns) \<and> f_cost sm c' \<le> f_cost sm c
           \<and> (\<forall>m\<in>set ns. f_cost sm c' \<le> f_cost sm m)"
  using assms
proof (induction ns arbitrary: c)
  case Nil
  then show ?case by simp
next
  case (Cons n ns)
  then obtain p where p: "getPath sm (n_id n) = Inr p" by auto
  have rest: "\<forall>n\<in>set ns. \<exists>p. getPath sm (n_id n) = Inr p" using Cons.prems by simp
  show ?case
  proof (cases "f_cost sm n < f_cost sm c")
    case True
    from Cons.IH[OF rest, of n] obtain c' where
      c': "lowestF_loop sm ns (Some n) (Num (f_cost sm n)) = Inr (Some c', Num (f_cost sm c'))"
          "c' \<in> insert n (set ns)" "f_cost sm c' \<le> f_cost sm n"
          "\<forall>m\<in>set ns. f_cost sm c' \<le> f_cost sm m" by blast
    show ?thesis
      using c' True p by (intro exI[of _ c']) (auto simp: fScore_f_cost Let_def)
  next
    case False
    from Cons.IH[OF rest, of c] obtain c' where
      c': "lowestF_loop sm ns (Some c) (Num (f_cost sm c)) = Inr (Some c', Num (f_cost sm c'))"
          "c' \<in> insert c (set ns)" "f_cost sm c' \<le> f_cost sm c"
          "\<forall>m\<in>set ns. f_cost sm c' \<le> f_cost sm m" by blast
    show ?thesis
      using c' False p by (intro exI[of _ c']) (auto simp: fScore_f_cost Let_def)
  qed
qed

lemma lowestF_loop_start:
  assumes "ns \<noteq> []" "\<forall>n\<in>set ns. \<exists>p. getPath sm (n_id n) = Inr p"
  shows "\<exists>c'. lowestF_loop sm ns None Infinity = Inr (Some c', Num (f_cost sm c'))
           \<and> c' \<in> set ns \<and> (\<forall>m\<in>set ns. f_cost sm c' \<le> f_cost sm m)"
proof -
  from assms obtain n rest where ns: "ns = n # rest" by (cases ns) auto
  from assms ns obtain p where p: "getPath sm (n_id n) = Inr p" by auto
  have rest: "\<forall>n\<in>set rest. \<exists>p. getPath sm (n_id n) = Inr p" using assms ns by simp
  from lowestF_loop_Some[OF rest, of n] obtain c' where
    c': "lowestF_loop sm rest (Some n) (Num (f_cost sm n)) = Inr (Some c', Num (f_cost sm c'))"
        "c' \<in> insert n (set rest)" "f_cost sm c' \<le> f_cost sm n"
        "\<forall>m\<in>set rest. f_cost sm c' \<le> f_cost sm m" by blast
  show ?thesis
    using c' p ns by (intro exI[of _ c']) (auto simp: fScore_f_cost Let_def)
qed

text \<open>
  Claim C4. With a non-empty \<open>openSet\<close> whose members all have a root path that the
  store can reconstruct (so that \<open>g\<close> is defined for them), the expansion step returns,
  and there is a member \<open>n\<close> of \<open>openSet\<close> with \<open>f n \<le> f m\<close> for every member
  \<open>m\<close>, where \<open>f = g + h\<close>, such that the step does exactly this: it deletes the key
  of \<open>n\<close> from \<open>openSet\<close> and sets it in \<open>closedSet\<close>. Nothing else changes,
  whether \<open>n\<close> is complete or not.
\<close>

theorem C4_expansion_step_moves_a_minimal_f_node:
  assumes "openSet a \<noteq> []"
    and "\<forall>n\<in>snd ` set (openSet a). \<exists>p. getPath sm (n_id n) = Inr p"
  shows "\<exists>n. n \<in> snd ` set (openSet a)
           \<and> (\<forall>m\<in>snd ` set (openSet a). f_cost sm n \<le> f_cost sm m)
           \<and> processAStarStep sm a =
               Inr (a\<lparr> openSet := AList.delete (n_id n) (openSet a),
                       closedSet := AList.update (n_id n) n (closedSet a) \<rparr>)"
proof -
  have ne: "map snd (openSet a) \<noteq> []" using assms(1) by simp
  have ok: "\<forall>n\<in>set (map snd (openSet a)). \<exists>p. getPath sm (n_id n) = Inr p"
    using assms(2) by simp
  from lowestF_loop_start[OF ne ok] obtain c' where
    c': "lowestF_loop sm (map snd (openSet a)) None Infinity = Inr (Some c', Num (f_cost sm c'))"
        "c' \<in> set (map snd (openSet a))"
        "\<forall>m\<in>set (map snd (openSet a)). f_cost sm c' \<le> f_cost sm m" by blast
  show ?thesis
    using c' assms(1) by (intro exI[of _ c']) (simp add: processAStarStep_def Let_def)
qed

theorem C4_witness:
  "processAStarStep
     (example_store [example_node ''a'' 2 False None (Some 1) None,
                     example_node ''b'' 1 True None (Some 1) None])
     \<lparr> openSet = [(''a'', example_node ''a'' 2 False None (Some 1) None),
                  (''b'', example_node ''b'' 1 True None (Some 1) None)],
       closedSet = [] \<rparr>
   = Inr \<lparr> openSet = [(''a'', example_node ''a'' 2 False None (Some 1) None)],
           closedSet = [(''b'', example_node ''b'' 1 True None (Some 1) None)] \<rparr>"
proof -
  let ?A = "example_node ''a'' 2 False None (Some 1) None"
  let ?B = "example_node ''b'' 1 True None (Some 1) None"
  let ?sm = "example_store [?A, ?B]"
  let ?a = "\<lparr> openSet = [(''a'', ?A), (''b'', ?B)], closedSet = [] \<rparr>"
  have pA: "getPath ?sm ''a'' = Inr [?A]"
    by (simp add: getPath_def store_get_def example_store_def example_node_def
          CONFIG_cacheSize_def walk_up_pos)
  have pB: "getPath ?sm ''b'' = Inr [?B]"
    by (simp add: getPath_def store_get_def example_store_def example_node_def
          CONFIG_cacheSize_def walk_up_pos)
  have idA: "n_id ?A = ''a''" and idB: "n_id ?B = ''b''"
    by (simp_all add: example_node_def)
  have fA: "f_cost ?sm ?A = 3"
    unfolding f_cost_def g_cost_def idA pA by (simp add: example_node_def)
  have fB: "f_cost ?sm ?B = 2"
    unfolding f_cost_def g_cost_def idB pB by (simp add: example_node_def)
  have h1: "openSet ?a \<noteq> []" by simp
  have h2: "\<forall>n\<in>snd ` set (openSet ?a). \<exists>p. getPath ?sm (n_id n) = Inr p"
    using pA pB idA idB by simp
  from C4_expansion_step_moves_a_minimal_f_node[OF h1 h2] obtain n where
    n: "n \<in> snd ` set (openSet ?a)"
       "\<forall>m\<in>snd ` set (openSet ?a). f_cost ?sm n \<le> f_cost ?sm m"
       "processAStarStep ?sm ?a =
          Inr (?a\<lparr> openSet := AList.delete (n_id n) (openSet ?a),
                   closedSet := AList.update (n_id n) n (closedSet ?a) \<rparr>)" by blast
  from n(1) have "n = ?A \<or> n = ?B" by simp
  moreover have "n \<noteq> ?A"
  proof
    assume "n = ?A"
    with n(2) have "f_cost ?sm ?A \<le> f_cost ?sm ?B" by simp
    with fA fB show False by simp
  qed
  ultimately have "n = ?B" by simp
  with n(3) idA idB show ?thesis by simp
qed

section \<open>The invariant of the A* sets\<close>

lemma lowestF_loop_mem:
  "lowestF_loop sm ns cur low = Inr (Some c, low') \<Longrightarrow> c \<in> set ns \<or> cur = Some c"
proof (induction ns arbitrary: cur low)
  case Nil
  then show ?case by simp
next
  case (Cons n ns)
  then show ?case
    by (auto simp: Let_def split: sum.splits if_splits)
qed

text \<open>The step either leaves the sets alone or moves one member of \<open>openSet\<close>.\<close>

lemma processAStarStep_cases:
  assumes "processAStarStep sm a = Inr a'"
  shows "a' = a \<or> (\<exists>n\<in>snd ` set (openSet a).
            a' = a\<lparr> openSet := AList.delete (n_id n) (openSet a),
                     closedSet := AList.update (n_id n) n (closedSet a) \<rparr>)"
proof (cases "length (openSet a) = 0")
  case True
  with assms show ?thesis by (simp add: processAStarStep_def)
next
  case False
  show ?thesis
  proof (cases "lowestF_loop sm (map snd (openSet a)) None Infinity")
    case (Inl e)
    with assms False show ?thesis by (simp add: processAStarStep_def)
  next
    case (Inr res)
    obtain cur low where res: "res = (cur, low)" by (cases res)
    show ?thesis
    proof (cases cur)
      case None
      with assms False Inr res show ?thesis by (simp add: processAStarStep_def)
    next
      case (Some n)
      from lowestF_loop_mem[of sm "map snd (openSet a)" None Infinity n low] Inr res Some
      have "n \<in> snd ` set (openSet a)" by simp
      with assms False Inr res Some show ?thesis
        by (auto simp: processAStarStep_def Let_def)
    qed
  qed
qed

lemma AStar_clear_new: "AStar_clear a = AStar_new"
  by (simp add: AStar_clear_def AStar_new_def)

lemma AStar_inv_new: "AStar_inv {} AStar_new"
  by (simp add: AStar_inv_def AStar_new_def)

lemma set_update_subset: "set (AList.update k v al) \<subseteq> insert (k, v) (set al)"
  by (induction al) auto

lemma AStar_inv_add:
  assumes "AStar_inv ids a" "nid \<notin> ids" "n_id node = nid"
  shows "AStar_inv (insert nid ids) (a\<lparr> openSet := AList.update nid node (openSet a) \<rparr>)"
  using assms set_update_subset[of nid node "openSet a"]
  unfolding AStar_inv_def
  by (auto simp: AList.dom_update AList.distinct_update)

lemma AStar_inv_move:
  assumes "AStar_inv ids a" "n \<in> snd ` set (openSet a)"
  shows "AStar_inv ids (a\<lparr> openSet := AList.delete (n_id n) (openSet a),
                     closedSet := AList.update (n_id n) n (closedSet a) \<rparr>)"
proof -
  from assms obtain k where kn: "(k, n) \<in> set (openSet a)" by auto
  with assms(1) have k: "k = n_id n" by (auto simp: AStar_inv_def)
  with kn have mem: "n_id n \<in> fst ` set (openSet a)" by force
  have keys: "fst ` set (AList.delete (n_id n) (openSet a)) = fst ` set (openSet a) - {n_id n}"
    using AList.delete_keys[of "n_id n" "openSet a"]
    by (metis list.set_map set_removeAll)
  have sub: "set (AList.delete (n_id n) (openSet a)) \<subseteq> set (openSet a)"
    by (auto simp: AList.delete_eq)
  show ?thesis
    using assms(1) mem keys sub
    unfolding AStar_inv_def
    by (auto simp: AList.dom_update AList.distinct_update AList.distinct_delete)
qed

lemma AStar_processThought_sets:
  "snd (snd (AStar_processThought ev nid req sm a)) =
       a\<lparr> openSet := AList.update nid (AStar_createNode ev nid req (lookupParent sm req)) (openSet a) \<rparr>
   \<or> processAStarStep (fst (snd (AStar_processThought ev nid req sm a)))
       (a\<lparr> openSet := AList.update nid (AStar_createNode ev nid req (lookupParent sm req)) (openSet a) \<rparr>)
      = Inr (snd (snd (AStar_processThought ev nid req sm a)))"
  by (simp add: AStar_processThought_def Let_def split: sum.splits)

lemma AStar_inv_processThought:
  assumes "AStar_inv ids a" "nid \<notin> ids"
  shows "AStar_inv (insert nid ids) (snd (snd (AStar_processThought ev nid req sm a)))"
proof -
  let ?node = "AStar_createNode ev nid req (lookupParent sm req)"
  let ?a1 = "a\<lparr> openSet := AList.update nid ?node (openSet a) \<rparr>"
  let ?a' = "snd (snd (AStar_processThought ev nid req sm a))"
  have inv1: "AStar_inv (insert nid ids) ?a1"
    by (rule AStar_inv_add[OF assms]) simp
  from AStar_processThought_sets[of ev nid req sm a] show ?thesis
  proof
    assume "?a' = ?a1"
    with inv1 show ?thesis by simp
  next
    assume "processAStarStep (fst (snd (AStar_processThought ev nid req sm a))) ?a1 = Inr ?a'"
    from processAStarStep_cases[OF this] show ?thesis
    proof
      assume "?a' = ?a1"
      with inv1 show ?thesis by simp
    next
      assume "\<exists>n\<in>snd ` set (openSet ?a1).
            ?a' = ?a1\<lparr> openSet := AList.delete (n_id n) (openSet ?a1),
                     closedSet := AList.update (n_id n) n (closedSet ?a1) \<rparr>"
      then obtain n where n: "n \<in> snd ` set (openSet ?a1)"
        and eq: "?a' = ?a1\<lparr> openSet := AList.delete (n_id n) (openSet ?a1),
                     closedSet := AList.update (n_id n) n (closedSet ?a1) \<rparr>" by blast
      from AStar_inv_move[OF inv1 n] eq show ?thesis by simp
    qed
  qed
qed

lemma AStar_inv_run:
  assumes "AStar_inv ids a" "distinct (map fst reqs)" "set (map fst reqs) \<inter> ids = {}"
  shows "AStar_inv (ids \<union> set (map fst reqs)) (snd (AStar_run ev reqs (sm, a)))"
  using assms
proof (induction reqs arbitrary: ids sm a)
  case Nil
  then show ?case by simp
next
  case (Cons x reqs)
  obtain nid req where x: "x = (nid, req)" by (cases x)
  obtain out sm' a' where step: "AStar_processThought ev nid req sm a = (out, sm', a')"
    by (cases "AStar_processThought ev nid req sm a") auto
  have fresh: "nid \<notin> ids" using Cons.prems x by auto
  have inv': "AStar_inv (insert nid ids) a'"
    using AStar_inv_processThought[OF Cons.prems(1) fresh, of ev req sm] step by simp
  have d: "distinct (map fst reqs)" using Cons.prems by simp
  have disj: "set (map fst reqs) \<inter> insert nid ids = {}" using Cons.prems x by auto
  from Cons.IH[OF inv' d disj, of sm'] show ?case
    using x step by simp
qed

text \<open>
  Claim C5. Take any store and an A* strategy as its constructor or \<open>clear\<close> leaves it,
  and any sequence of \<open>processThought\<close> calls whose generated node ids are pairwise
  different. After each call of the sequence (that is, after its first \<open>k\<close> calls, for
  every \<open>k\<close>) the keys of \<open>openSet\<close> and of \<open>closedSet\<close> are disjoint, every id
  created so far is a key of exactly one of the two, and neither map holds a key twice.
  This also holds after a call that ended in a fault.
\<close>

theorem C5_open_and_closed_partition_the_created_ids:
  assumes "distinct (map fst reqs)"
  shows "fst ` set (openSet (snd (AStar_run ev (take k reqs) (sm, AStar_new))))
           \<inter> fst ` set (closedSet (snd (AStar_run ev (take k reqs) (sm, AStar_new)))) = {}
       \<and> (\<forall>i\<in>set (map fst (take k reqs)).
             (i \<in> fst ` set (openSet (snd (AStar_run ev (take k reqs) (sm, AStar_new)))))
               \<noteq> (i \<in> fst ` set (closedSet (snd (AStar_run ev (take k reqs) (sm, AStar_new))))))
       \<and> distinct (map fst (openSet (snd (AStar_run ev (take k reqs) (sm, AStar_new)))))
       \<and> distinct (map fst (closedSet (snd (AStar_run ev (take k reqs) (sm, AStar_new)))))"
proof -
  have d: "distinct (map fst (take k reqs))"
    using assms by (simp add: take_map[symmetric] distinct_take)
  have "AStar_inv ({} \<union> set (map fst (take k reqs))) (snd (AStar_run ev (take k reqs) (sm, AStar_new)))"
    by (rule AStar_inv_run[OF AStar_inv_new d]) simp
  then show ?thesis
    unfolding AStar_inv_def by auto
qed

theorem C5_witness:
  "fst ` set (openSet (snd (AStar_run example_score
       [(''n1'', example_request None None), (''n2'', example_request (Some ''n1'') None)]
       (StateManager_new CONFIG_cacheSize, AStar_new))))
     \<inter> fst ` set (closedSet (snd (AStar_run example_score
       [(''n1'', example_request None None), (''n2'', example_request (Some ''n1'') None)]
       (StateManager_new CONFIG_cacheSize, AStar_new)))) = {}
   \<and> (''n2'' \<in> fst ` set (openSet (snd (AStar_run example_score
       [(''n1'', example_request None None), (''n2'', example_request (Some ''n1'') None)]
       (StateManager_new CONFIG_cacheSize, AStar_new)))))
      \<noteq> (''n2'' \<in> fst ` set (closedSet (snd (AStar_run example_score
       [(''n1'', example_request None None), (''n2'', example_request (Some ''n1'') None)]
       (StateManager_new CONFIG_cacheSize, AStar_new)))))"
proof -
  let ?reqs = "[(''n1'', example_request None None), (''n2'', example_request (Some ''n1'') None)]"
  have d: "distinct (map fst ?reqs)" by simp
  from C5_open_and_closed_partition_the_created_ids[OF d, of example_score 2
      "StateManager_new CONFIG_cacheSize"]
  show ?thesis by simp
qed

section \<open>The first request of a fresh A* strategy\<close>

text \<open>
  For a request without parent, on a store with room for at least one node, the root path
  of the new node is the node alone.
\<close>

lemma AStar_root_request_path:
  assumes "parentId req = None" and "0 < capacity sm"
  shows "getPath (fst (snd (AStar_processThought ev nid req sm a))) nid =
           Inr [AStar_createNode ev nid req None]"
proof -
  let ?node = "AStar_createNode ev nid req None"
  have lp: "lookupParent sm req = None"
    using assms(1) by (simp add: lookupParent_def)
  have st: "fst (snd (AStar_processThought ev nid req sm a)) = store_put sm ?node"
    by (simp add: AStar_processThought_store lp updateParent_def saveNode_def)
  have g: "store_get (store_put sm ?node) nid = Some ?node"
    using store_get_put_same[OF assms(2), of ?node] by simp
  have np: "n_parentId ?node = None"
    using assms(1) by (simp add: AStar_createNode_def Let_def)
  show ?thesis
    unfolding st getPath_def
    using g np assms(2) by (simp add: capacity_store_put walk_up_pos)
qed

text \<open>
  Claim C10. The expansion step runs before the response is built. For a request handled
  by an A* strategy whose two sets are empty, if the root path of the new node can be
  reconstructed from the store as the call leaves it, the call returns a response with
  \<open>openSetSize = 0\<close>, \<open>closedSetSize = 1\<close> and \<open>bestScore = -Infinity\<close>, and it
  leaves \<open>openSet\<close> empty and the new node as the one entry of \<open>closedSet\<close>.
\<close>

theorem C10_first_request_is_closed_in_the_same_call:
  assumes "openSet a = []" and "closedSet a = []"
    and "getPath (fst (snd (AStar_processThought ev nid req sm a))) nid = Inr p"
  shows "\<exists>r. fst (AStar_processThought ev nid req sm a) = Inr r
           \<and> r_openSetSize r = Some 0 \<and> r_closedSetSize r = Some 1
           \<and> r_bestScore r = Some NegInfinity
           \<and> openSet (snd (snd (AStar_processThought ev nid req sm a))) = []
           \<and> map fst (closedSet (snd (snd (AStar_processThought ev nid req sm a)))) = [nid]"
proof -
  let ?pn = "lookupParent sm req"
  let ?node = "AStar_createNode ev nid req ?pn"
  let ?sm2 = "updateParent (saveNode sm ?node) ?pn ?node"
  have p: "getPath ?sm2 nid = Inr p"
    using assms(3) by (simp add: AStar_processThought_store)
  have step: "processAStarStep ?sm2 (a\<lparr> openSet := AList.update nid ?node (openSet a) \<rparr>)
      = Inr (a\<lparr> openSet := [], closedSet := [(nid, ?node)] \<rparr>)"
    using assms(1,2) p by (simp add: processAStarStep_def Let_def)
  show ?thesis
    using step p
    by (simp add: AStar_processThought_def Let_def plain_response_def Math_max_def)
qed

theorem C10_witness:
  "\<exists>r. fst (AStar_processThought example_score ''n1'' (example_request None None)
            (StateManager_new CONFIG_cacheSize) AStar_new) = Inr r
       \<and> r_openSetSize r = Some 0 \<and> r_closedSetSize r = Some 1
       \<and> r_bestScore r = Some NegInfinity"
proof -
  have "\<exists>p. getPath (fst (snd (AStar_processThought example_score ''n1'' (example_request None None)
              (StateManager_new CONFIG_cacheSize) AStar_new))) ''n1'' = Inr p"
    by (simp add: AStar_processThought_store lookupParent_def updateParent_def saveNode_def
          store_put_def store_get_def StateManager_new_def getPath_def walk_up_pos
          AStar_createNode_def Let_def example_request_def CONFIG_cacheSize_def)
  then obtain p where p: "getPath (fst (snd (AStar_processThought example_score ''n1''
              (example_request None None) (StateManager_new CONFIG_cacheSize) AStar_new))) ''n1'' = Inr p"
    by blast
  have o: "openSet AStar_new = []" and c: "closedSet AStar_new = []"
    by (simp_all add: AStar_new_def)
  from C10_first_request_is_closed_in_the_same_call[OF o c p] show ?thesis by blast
qed

section \<open>The best path of the constraint strategy\<close>

lemma reduce_best_mem: "reduce_best xs init \<in> insert init (set xs)"
  unfolding reduce_best_def
  by (induction xs arbitrary: init) (auto split: if_splits)

lemma foldl_best_ge:
  "n_score init \<le> n_score (foldl (\<lambda>best current. if n_score current > n_score best then current else best) init xs)"
proof (induction xs arbitrary: init)
  case Nil
  then show ?case by simp
next
  case (Cons x xs)
  show ?case
  proof (cases "n_score x > n_score init")
    case True
    with Cons[of x] show ?thesis by simp
  next
    case False
    with Cons[of init] show ?thesis by simp
  qed
qed

lemma reduce_best_max: "n \<in> insert init (set xs) \<Longrightarrow> n_score n \<le> n_score (reduce_best xs init)"
  unfolding reduce_best_def
proof (induction xs arbitrary: init)
  case Nil
  then show ?case by simp
next
  case (Cons x xs)
  from Cons.prems consider "n = init" | "n = x" | "n \<in> set xs" by auto
  then show ?case
  proof cases
    case 1
    show ?thesis
    proof (cases "n_score x > n_score init")
      case True
      have "n_score x \<le> n_score (foldl (\<lambda>best current. if n_score current > n_score best then current else best) x xs)"
        by (rule foldl_best_ge)
      with True 1 show ?thesis by simp
    next
      case False
      with 1 Cons.IH[of init] show ?thesis by simp
    qed
  next
    case 2
    show ?thesis
    proof (cases "n_score x > n_score init")
      case True
      with 2 Cons.IH[of x] show ?thesis by simp
    next
      case False
      have "n_score init \<le> n_score (foldl (\<lambda>best current. if n_score current > n_score best then current else best) init xs)"
        by (rule foldl_best_ge)
      with False 2 show ?thesis by simp
    qed
  next
    case 3
    show ?thesis
    proof (cases "n_score x > n_score init")
      case True
      with 3 Cons.IH[of x] show ?thesis by simp
    next
      case False
      with 3 Cons.IH[of init] show ?thesis by simp
    qed
  qed
qed

text \<open>
  Claim C3, as amended. Among the nodes of the store, call satisfying those that are
  complete and whose constraints are marked satisfied. If there is a satisfying node,
  \<open>getBestPath\<close> is the path to a satisfying node of highest score among them. If there
  is none and the store is not empty, it is the path to a node of highest score among all
  nodes of the store, complete or not. If the store is empty it is the empty path, and
  only then.
\<close>

theorem C3_best_path_prefers_satisfying_then_any_node:
  "(filter satisfying (getAllNodes sm) \<noteq> [] \<longrightarrow>
      (\<exists>b\<in>set (filter satisfying (getAllNodes sm)).
          (\<forall>n\<in>set (filter satisfying (getAllNodes sm)). n_score n \<le> n_score b)
          \<and> CSP_getBestPath sm = getPath sm (n_id b)
          \<and> (\<forall>p. CSP_getBestPath sm = Inr p \<longrightarrow> p \<noteq> [] \<and> n_id (last p) = n_id b)))
   \<and> (filter satisfying (getAllNodes sm) = [] \<and> getAllNodes sm \<noteq> [] \<longrightarrow>
      (\<exists>b\<in>set (getAllNodes sm).
          (\<forall>n\<in>set (getAllNodes sm). n_score n \<le> n_score b)
          \<and> CSP_getBestPath sm = getPath sm (n_id b)
          \<and> (\<forall>p. CSP_getBestPath sm = Inr p \<longrightarrow> p \<noteq> [] \<and> n_id (last p) = n_id b)))
   \<and> (getAllNodes sm = [] \<longrightarrow> CSP_getBestPath sm = Inr [])
   \<and> (CSP_getBestPath sm = Inr [] \<longrightarrow> getAllNodes sm = [])"
proof -
  let ?all = "getAllNodes sm"
  let ?sat = "filter satisfying ?all"
  have A: "?sat \<noteq> [] \<Longrightarrow>
      (\<exists>b\<in>set ?sat. (\<forall>n\<in>set ?sat. n_score n \<le> n_score b)
          \<and> CSP_getBestPath sm = getPath sm (n_id b)
          \<and> (\<forall>p. CSP_getBestPath sm = Inr p \<longrightarrow> p \<noteq> [] \<and> n_id (last p) = n_id b))"
  proof -
    assume ne: "?sat \<noteq> []"
    let ?b = "reduce_best ?sat (hd ?sat)"
    have hd: "hd ?sat \<in> set ?sat" by (rule hd_in_set[OF ne])
    have mem: "?b \<in> set ?sat" using reduce_best_mem[of ?sat "hd ?sat"] hd by auto
    have mx: "\<forall>n\<in>set ?sat. n_score n \<le> n_score ?b" by (simp add: reduce_best_max)
    have eq: "CSP_getBestPath sm = getPath sm (n_id ?b)"
      using ne by (simp add: CSP_getBestPath_def Let_def)
    show ?thesis
      using mem mx eq getPath_ends_at[of sm "n_id ?b"] by (intro bexI[of _ ?b]) auto
  qed
  have B: "?sat = [] \<Longrightarrow> ?all \<noteq> [] \<Longrightarrow>
      (\<exists>b\<in>set ?all. (\<forall>n\<in>set ?all. n_score n \<le> n_score b)
          \<and> CSP_getBestPath sm = getPath sm (n_id b)
          \<and> (\<forall>p. CSP_getBestPath sm = Inr p \<longrightarrow> p \<noteq> [] \<and> n_id (last p) = n_id b))"
  proof -
    assume e: "?sat = []" and ne: "?all \<noteq> []"
    then obtain first rest where fr: "?all = first # rest" by (cases ?all) auto
    let ?b = "reduce_best ?all first"
    have mem: "?b \<in> set ?all" using reduce_best_mem[of ?all first] fr by auto
    have mx: "\<forall>n\<in>set ?all. n_score n \<le> n_score ?b" by (simp add: reduce_best_max)
    have eq: "CSP_getBestPath sm = getPath sm (n_id ?b)"
      using e fr by (simp add: CSP_getBestPath_def Let_def)
    show ?thesis
      using mem mx eq getPath_ends_at[of sm "n_id ?b"] by (intro bexI[of _ ?b]) auto
  qed
  have C: "?all = [] \<Longrightarrow> CSP_getBestPath sm = Inr []"
    by (simp add: CSP_getBestPath_def Let_def)
  have D: "CSP_getBestPath sm = Inr [] \<Longrightarrow> ?all = []"
  proof (rule ccontr)
    assume r: "CSP_getBestPath sm = Inr []" and ne: "?all \<noteq> []"
    show False
    proof (cases "?sat = []")
      case True
      from B[OF True ne] r show False by auto
    next
      case False
      from A[OF False] r show False by auto
    qed
  qed
  from A B C D show ?thesis by blast
qed

text \<open>
  The claim as it was stated fails on a store with an incomplete node of score 5 and a
  complete node of score 3, neither marked satisfied: the best path goes to the incomplete
  node, not to the highest-scoring complete one.
\<close>

theorem C3_counterexample:
  "CSP_getBestPath (example_store [example_node ''a'' 5 False None None None,
                                   example_node ''b'' 3 True None None None])
     = Inr [example_node ''a'' 5 False None None None]
   \<and> filter satisfying (getAllNodes (example_store [example_node ''a'' 5 False None None None,
                                   example_node ''b'' 3 True None None None])) = []
   \<and> filter n_isComplete (getAllNodes (example_store [example_node ''a'' 5 False None None None,
                                   example_node ''b'' 3 True None None None]))
       = [example_node ''b'' 3 True None None None]
   \<and> getPath (example_store [example_node ''a'' 5 False None None None,
                              example_node ''b'' 3 True None None None]) ''b''
       = Inr [example_node ''b'' 3 True None None None]"
  by (simp add: CSP_getBestPath_def getAllNodes_def example_store_def example_node_def
        satisfying_def reduce_best_def getPath_def store_get_def walk_up_pos CONFIG_cacheSize_def)

theorem C3_witness:
  "CSP_getBestPath (example_store
       [example_node ''a'' 4 True None None (Some [(''satisfied'', JBool True)]),
        example_node ''b'' 9 True None None (Some [(''satisfied'', JBool True)]),
        example_node ''c'' 10 False None None None])
     = Inr [example_node ''b'' 9 True None None (Some [(''satisfied'', JBool True)])]
   \<and> CSP_getBestPath (example_store
       [example_node ''a'' 5 False None None None, example_node ''b'' 3 True None None None])
     = Inr [example_node ''a'' 5 False None None None]
   \<and> CSP_getBestPath (example_store []) = Inr []"
proof -
  let ?A = "example_node ''a'' 4 True None None (Some [(''satisfied'', JBool True)])"
  let ?B = "example_node ''b'' 9 True None None (Some [(''satisfied'', JBool True)])"
  let ?C = "example_node ''c'' 10 False None None None"
  let ?s1 = "example_store [?A, ?B, ?C]"
  let ?A' = "example_node ''a'' 5 False None None None"
  let ?B' = "example_node ''b'' 3 True None None None"
  let ?s2 = "example_store [?A', ?B']"
  have sat1: "filter satisfying (getAllNodes ?s1) = [?A, ?B]"
    by (simp add: getAllNodes_def example_store_def example_node_def satisfying_def)
  have ne1: "filter satisfying (getAllNodes ?s1) \<noteq> []"
    using sat1 by simp
  from C3_best_path_prefers_satisfying_then_any_node[of ?s1] ne1 obtain b where
    b: "b \<in> set (filter satisfying (getAllNodes ?s1))"
       "\<forall>n\<in>set (filter satisfying (getAllNodes ?s1)). n_score n \<le> n_score b"
       "CSP_getBestPath ?s1 = getPath ?s1 (n_id b)" by blast
  have "b = ?A \<or> b = ?B" using b(1) sat1 by simp
  moreover have "b \<noteq> ?A"
  proof
    assume "b = ?A"
    with b(2) sat1 have "n_score ?B \<le> n_score ?A" by simp
    then show False by (simp add: example_node_def)
  qed
  ultimately have bB: "b = ?B" by simp
  have p1: "getPath ?s1 (n_id ?B) = Inr [?B]"
    by (simp add: getPath_def store_get_def example_store_def example_node_def
          walk_up_pos CONFIG_cacheSize_def)
  have r1: "CSP_getBestPath ?s1 = Inr [?B]" using b(3) bB p1 by simp
  have sat2: "filter satisfying (getAllNodes ?s2) = []"
    by (simp add: getAllNodes_def example_store_def example_node_def satisfying_def)
  have all2: "getAllNodes ?s2 = [?A', ?B']"
    by (simp add: getAllNodes_def example_store_def)
  from C3_best_path_prefers_satisfying_then_any_node[of ?s2] sat2 all2 obtain b' where
    b': "b' \<in> set (getAllNodes ?s2)"
       "\<forall>n\<in>set (getAllNodes ?s2). n_score n \<le> n_score b'"
       "CSP_getBestPath ?s2 = getPath ?s2 (n_id b')" by auto
  have "b' = ?A' \<or> b' = ?B'" using b'(1) all2 by simp
  moreover have "b' \<noteq> ?B'"
  proof
    assume "b' = ?B'"
    with b'(2) all2 have "n_score ?A' \<le> n_score ?B'" by simp
    then show False by (simp add: example_node_def)
  qed
  ultimately have bA: "b' = ?A'" by simp
  have p2: "getPath ?s2 (n_id ?A') = Inr [?A']"
    by (simp add: getPath_def store_get_def example_store_def example_node_def
          walk_up_pos CONFIG_cacheSize_def)
  have r2: "CSP_getBestPath ?s2 = Inr [?A']" using b'(3) bA p2 by simp
  have "getAllNodes (example_store []) = []"
    by (simp add: getAllNodes_def example_store_def)
  with C3_best_path_prefers_satisfying_then_any_node[of "example_store []"]
  have r3: "CSP_getBestPath (example_store []) = Inr []" by blast
  from r1 r2 r3 show ?thesis by simp
qed

section \<open>The constraints index of the constraint strategy\<close>

lemma CSP_clear_new: "CSP_clear c = CSP_new"
  by (simp add: CSP_clear_def CSP_new_def)

lemma extractConstraints_keeps_index:
  "csp_constraints (extractConstraints node c) = csp_constraints c"
  by (simp add: extractConstraints_def Let_def split: option.splits)

lemma CSP_processThought_keeps_index:
  "csp_constraints (snd (snd (CSP_processThought ev nid req sm c))) = csp_constraints c"
  by (simp add: CSP_processThought_def Let_def extractConstraints_keeps_index)

lemma CSP_apply_empty_index:
  "csp_constraints (snd s) = [] \<Longrightarrow> csp_constraints (snd (CSP_apply ev op s)) = []"
  by (cases s; cases op) (simp_all add: CSP_processThought_keeps_index CSP_clear_def)

lemma CSP_run_empty_index:
  "csp_constraints (snd s) = [] \<Longrightarrow> csp_constraints (snd (CSP_run ev ops s)) = []"
  unfolding CSP_run_def
  by (induction ops arbitrary: s) (simp_all add: CSP_apply_empty_index)

lemma empty_index_satisfied: "csp_constraints c = [] \<Longrightarrow> checkConstraints c"
  by (simp add: checkConstraints_def)

lemma CSP_processThought_satisfied:
  "r_constraintsSatisfied (fst (CSP_processThought ev nid req sm c)) =
     Some (checkConstraints (snd (snd (CSP_processThought ev nid req sm c))))"
  by (simp add: CSP_processThought_def Let_def plain_response_def)

text \<open>
  Claim C9. \<open>processThought\<close> leaves the constraints index of the strategy as it found
  it. Hence after any sequence of operations (\<open>processThought\<close>, \<open>getMetrics\<close>,
  \<open>getBestPath\<close>, \<open>clear\<close>) on a newly constructed strategy the index is empty and
  the constraint check is true, \<open>getMetrics\<close> reports \<open>constraintsSatisfied = true\<close>,
  and so does the response of any further \<open>processThought\<close> call.
\<close>

theorem C9_constraints_index_stays_empty:
  "csp_constraints (snd (snd (CSP_processThought ev nid req sm c))) = csp_constraints c
   \<and> csp_constraints (snd (CSP_run ev ops (sm0, CSP_new))) = []
   \<and> checkConstraints (snd (CSP_run ev ops (sm0, CSP_new)))
   \<and> m_constraintsSatisfied (CSP_getMetrics baseMetrics (snd (CSP_run ev ops (sm0, CSP_new))))
   \<and> r_constraintsSatisfied
        (fst (CSP_processThought ev nid req (fst (CSP_run ev ops (sm0, CSP_new)))
                (snd (CSP_run ev ops (sm0, CSP_new))))) = Some True"
proof -
  let ?c = "snd (CSP_run ev ops (sm0, CSP_new))"
  let ?s = "fst (CSP_run ev ops (sm0, CSP_new))"
  have e: "csp_constraints ?c = []"
    by (rule CSP_run_empty_index) (simp add: CSP_new_def)
  have "csp_constraints (snd (snd (CSP_processThought ev nid req ?s ?c))) = []"
    using e by (simp add: CSP_processThought_keeps_index)
  then have r: "r_constraintsSatisfied (fst (CSP_processThought ev nid req ?s ?c)) = Some True"
    by (simp add: CSP_processThought_satisfied empty_index_satisfied)
  have m: "m_constraintsSatisfied (CSP_getMetrics baseMetrics ?c)"
    using e by (simp add: CSP_getMetrics_def empty_index_satisfied)
  show ?thesis
    using e r m by (simp add: CSP_processThought_keeps_index empty_index_satisfied)
qed

theorem C9_witness:
  "r_constraintsSatisfied
     (fst (CSP_processThought example_score ''n2'' (example_request (Some ''n1'') None)
        (fst (CSP_run example_score
                [ProcessThought ''n1''
                   ((example_request None None)
                      \<lparr> constraints := Some [(''domains'', JObj [(''x'', JArr [JNum 1, JNum 2])]),
                                             (''assignments'', JObj [(''x'', JNum 1)])] \<rparr>),
                 GetMetrics]
                (StateManager_new CONFIG_cacheSize, CSP_new)))
        (snd (CSP_run example_score
                [ProcessThought ''n1''
                   ((example_request None None)
                      \<lparr> constraints := Some [(''domains'', JObj [(''x'', JArr [JNum 1, JNum 2])]),
                                             (''assignments'', JObj [(''x'', JNum 1)])] \<rparr>),
                 GetMetrics]
                (StateManager_new CONFIG_cacheSize, CSP_new))))) = Some True"
  using C9_constraints_index_stays_empty[of example_score "''n2''" "example_request (Some ''n1'') None"]
  by blast

section \<open>The uncertainty signal of the Hybrid\<close>

lemma foldl_plus_real: "foldl (\<lambda>a b. a + b) (a::real) xs = a + sum_list xs"
  by (induction xs arbitrary: a) auto

lemma foldl_sq_dev: "foldl (\<lambda>a b. a + (b - m)\<^sup>2) (a::real) xs = a + (\<Sum>x\<leftarrow>xs. (x - m)\<^sup>2)"
  by (induction xs arbitrary: a) auto

lemma variance_of_nonneg: "0 \<le> variance_of xs"
  unfolding variance_of_def
  by (intro divide_nonneg_nonneg sum_list_nonneg) auto

lemma most_recent_drop: "most_recent k xs = drop (length xs - k) xs"
  by (simp add: most_recent_def rev_take)

text \<open>
  Claim C8. With fewer than two nodes in the store the uncertainty is 0.5. Otherwise it is
  the variance of the scores of the ten most recent nodes, divided by 5 and cut off at 1.
  In both cases it lies between 0 and 1.
\<close>

theorem C8_uncertainty_is_clamped_scaled_variance:
  "(length (getAllNodes sm) < 2 \<longrightarrow> calculateUncertainty sm = 0.5)
   \<and> (2 \<le> length (getAllNodes sm) \<longrightarrow>
        calculateUncertainty sm =
          min 1 (variance_of (map n_score (most_recent 10 (getAllNodes sm))) / 5))
   \<and> 0 \<le> calculateUncertainty sm \<and> calculateUncertainty sm \<le> 1"
proof -
  let ?v = "variance_of (map n_score (most_recent 10 (getAllNodes sm)))"
  have small: "length (getAllNodes sm) < 2 \<Longrightarrow> calculateUncertainty sm = 0.5"
    by (simp add: calculateUncertainty_def Let_def)
  have big: "2 \<le> length (getAllNodes sm) \<Longrightarrow> calculateUncertainty sm = min 1 (?v / 5)"
    by (simp add: calculateUncertainty_def Let_def variance_of_def most_recent_drop
          foldl_plus_real foldl_sq_dev)
  have "0 \<le> ?v / 5"
    using variance_of_nonneg[of "map n_score (most_recent 10 (getAllNodes sm))"] by simp
  then have rng: "0 \<le> min 1 (?v / 5) \<and> min 1 (?v / 5) \<le> 1" by simp
  have "0 \<le> calculateUncertainty sm \<and> calculateUncertainty sm \<le> 1"
  proof (cases "length (getAllNodes sm) < 2")
    case True
    with small show ?thesis by simp
  next
    case False
    then have "2 \<le> length (getAllNodes sm)" by simp
    with big rng show ?thesis by simp
  qed
  with small big show ?thesis by blast
qed

theorem C8_witness:
  "calculateUncertainty (example_store [example_node ''a'' 1 False None None None]) = 0.5
   \<and> calculateUncertainty (example_store [example_node ''a'' 1 False None None None,
                                           example_node ''b'' 3 False None None None]) = 0.2
   \<and> calculateUncertainty (example_store [example_node ''a'' 0 False None None None,
                                           example_node ''b'' 10 False None None None]) = 1"
proof -
  let ?s1 = "example_store [example_node ''a'' 1 False None None None]"
  let ?s2 = "example_store [example_node ''a'' 1 False None None None,
                            example_node ''b'' 3 False None None None]"
  let ?s3 = "example_store [example_node ''a'' 0 False None None None,
                            example_node ''b'' 10 False None None None]"
  have l1: "length (getAllNodes ?s1) < 2"
    by (simp add: getAllNodes_def example_store_def)
  have l2: "2 \<le> length (getAllNodes ?s2)"
    by (simp add: getAllNodes_def example_store_def)
  have l3: "2 \<le> length (getAllNodes ?s3)"
    by (simp add: getAllNodes_def example_store_def)
  have v2: "variance_of (map n_score (most_recent 10 (getAllNodes ?s2))) = 1"
    by (simp add: variance_of_def most_recent_def getAllNodes_def example_store_def
          example_node_def power2_eq_square)
  have v3: "variance_of (map n_score (most_recent 10 (getAllNodes ?s3))) = 25"
    by (simp add: variance_of_def most_recent_def getAllNodes_def example_store_def
          example_node_def power2_eq_square)
  from C8_uncertainty_is_clamped_scaled_variance[of ?s1] l1
  have r1: "calculateUncertainty ?s1 = 0.5" by blast
  from C8_uncertainty_is_clamped_scaled_variance[of ?s2] l2
  have "calculateUncertainty ?s2 = min 1 (variance_of (map n_score (most_recent 10 (getAllNodes ?s2))) / 5)"
    by blast
  then have r2: "calculateUncertainty ?s2 = 0.2" unfolding v2 by simp
  from C8_uncertainty_is_clamped_scaled_variance[of ?s3] l3
  have "calculateUncertainty ?s3 = min 1 (variance_of (map n_score (most_recent 10 (getAllNodes ?s3))) / 5)"
    by blast
  then have r3: "calculateUncertainty ?s3 = 1" unfolding v3 by simp
  from r1 r2 r3 show ?thesis by simp
qed

section \<open>The strategy switch of the Hybrid\<close>

lemma hybrid_lookup_value:
  "k \<noteq> HYBRID \<Longrightarrow> map_of (hybrid_strategies Hybrid_new) (strategy_value k) = Some k"
  by (cases k) (simp_all add: Hybrid_new_def)

lemma hybrid_lookup_None:
  "t \<notin> registered_identifiers - {''hybrid''} \<Longrightarrow> map_of (hybrid_strategies Hybrid_new) t = None"
  by (auto simp: Hybrid_new_def registered_identifiers_def)

lemma switchStrategy_active:
  "activeStrategy (switchStrategy t h) =
     (case map_of (hybrid_strategies h) t of None \<Rightarrow> activeStrategy h | Some s \<Rightarrow> s)"
  by (simp add: switchStrategy_def split: option.splits)

lemma switchStrategy_strategies:
  "hybrid_strategies (switchStrategy t h) = hybrid_strategies h"
  by (simp add: switchStrategy_def split: option.splits)

lemma automaticSwitch_strategies:
  "hybrid_strategies (automaticSwitch u g d h) = hybrid_strategies h"
  by (simp add: automaticSwitch_def switchStrategy_strategies)

lemma automaticSwitch_active:
  assumes "hybrid_strategies h = hybrid_strategies Hybrid_new"
    and "strategySwitchThresholds h = strategySwitchThresholds Hybrid_new"
  shows "activeStrategy (automaticSwitch u g d h) = computed_choice u g d"
proof -
  have th: "constraintDensityThreshold (strategySwitchThresholds h) = 5"
       "goalClarityThreshold (strategySwitchThresholds h) = 0.7"
       "uncertaintyThreshold (strategySwitchThresholds h) = 0.3"
    using assms(2) by (simp_all add: Hybrid_new_def)
  show ?thesis
    unfolding automaticSwitch_def computed_choice_def th
    by (simp add: switchStrategy_active assms(1) hybrid_lookup_value del: strategy_value.simps)
qed

lemma strategy_value_nonempty: "strategy_value k \<noteq> []"
  by (cases k) simp_all

text \<open>
  Claim C2, as amended. In a Hybrid with the strategies and thresholds its constructor
  sets, the switch first resolves the active strategy by the fixed priority order (CSP when
  \<open>constraintDensity \<ge> 5\<close>, else A* when \<open>goalClarity \<ge> 0.7\<close>, else MCTS when
  \<open>uncertainty \<ge> 0.3\<close>, else BeamSearch). After that an explicit \<open>strategyType\<close>
  of the request replaces the computed choice when it is one of the four identifiers
  registered in the Hybrid (\<open>beam_search\<close>, \<open>mcts\<close>, \<open>a_star\<close>, \<open>csp\<close>); any
  other value, \<open>hybrid\<close> included, leaves the computed choice in place. With
  \<open>constraintDensity = 6\<close>, \<open>goalClarity = 0.2\<close>, \<open>uncertainty = 0.1\<close> the computed
  choice is CSP. The signals the switch uses are the three the strategy calculates.
\<close>

theorem C2_priority_order_then_registered_explicit_choice:
  assumes "hybrid_strategies h = hybrid_strategies Hybrid_new"
    and "strategySwitchThresholds h = strategySwitchThresholds Hybrid_new"
  shows "(strategyType request = None \<or> strategyType request = Some [] \<longrightarrow>
            activeStrategy (switchDecision u g d request h) = computed_choice u g d)
       \<and> (\<forall>k. strategyType request = Some (strategy_value k) \<and> k \<noteq> HYBRID \<longrightarrow>
            activeStrategy (switchDecision u g d request h) = k)
       \<and> (\<forall>t. strategyType request = Some t \<and> t \<notin> registered_identifiers - {''hybrid''} \<longrightarrow>
            activeStrategy (switchDecision u g d request h) = computed_choice u g d)
       \<and> computed_choice 0.1 0.2 6 = CONSTRAINT_SATISFACTION
       \<and> evaluateStrategySwitch sm request h =
           switchDecision (calculateUncertainty sm) (calculateGoalClarity request)
             (real (calculateConstraintDensity request)) request h"
proof -
  note aa = automaticSwitch_active[OF assms, of u g d]
  have a: "strategyType request = None \<or> strategyType request = Some [] \<Longrightarrow>
            activeStrategy (switchDecision u g d request h) = computed_choice u g d"
    using aa by (auto simp: switchDecision_def Let_def)
  have b: "strategyType request = Some (strategy_value k) \<Longrightarrow> k \<noteq> HYBRID \<Longrightarrow>
            activeStrategy (switchDecision u g d request h) = k" for k
    using strategy_value_nonempty[of k]
    by (simp add: switchDecision_def Let_def switchStrategy_active automaticSwitch_strategies
          assms(1) hybrid_lookup_value del: strategy_value.simps)
  have c: "strategyType request = Some t \<Longrightarrow> t \<notin> registered_identifiers - {''hybrid''} \<Longrightarrow>
            activeStrategy (switchDecision u g d request h) = computed_choice u g d" for t
    using aa
    by (simp add: switchDecision_def Let_def switchStrategy_active automaticSwitch_strategies
          assms(1) hybrid_lookup_None)
  have d: "computed_choice 0.1 0.2 6 = CONSTRAINT_SATISFACTION"
    by (simp add: computed_choice_def)
  have e: "evaluateStrategySwitch sm request h =
           switchDecision (calculateUncertainty sm) (calculateGoalClarity request)
             (real (calculateConstraintDensity request)) request h"
    by (simp add: evaluateStrategySwitch_def Let_def)
  from a b c d e show ?thesis by blast
qed

theorem C2_witness:
  "activeStrategy (switchDecision 0.1 0.2 6 (example_request None None) Hybrid_new)
     = CONSTRAINT_SATISFACTION
   \<and> activeStrategy (switchDecision 0.1 0.2 6 (example_request None (Some ''mcts'')) Hybrid_new)
     = MCTS
   \<and> activeStrategy (switchDecision 0.5 0.6 1 (example_request None (Some ''fastest'')) Hybrid_new)
     = MCTS"
proof -
  have n: "strategyType (example_request None None) = None"
    by (simp add: example_request_def)
  have m: "strategyType (example_request None (Some ''mcts'')) = Some (strategy_value MCTS)"
    by (simp add: example_request_def)
  have f: "strategyType (example_request None (Some ''fastest'')) = Some ''fastest''"
    by (simp add: example_request_def)
  have fn: "''fastest'' \<notin> registered_identifiers - {''hybrid''}"
    by (simp add: registered_identifiers_def)
  have c1: "computed_choice 0.1 0.2 6 = CONSTRAINT_SATISFACTION"
    by (simp add: computed_choice_def)
  have c2: "computed_choice 0.5 0.6 1 = MCTS"
    by (simp add: computed_choice_def)
  from C2_priority_order_then_registered_explicit_choice[OF refl refl,
      of "example_request None None" "0.1" "0.2" 6] n c1
  have r1: "activeStrategy (switchDecision 0.1 0.2 6 (example_request None None) Hybrid_new)
     = CONSTRAINT_SATISFACTION" by simp
  from C2_priority_order_then_registered_explicit_choice[OF refl refl,
      of "example_request None (Some ''mcts'')" "0.1" "0.2" 6] m
  have r2: "activeStrategy (switchDecision 0.1 0.2 6 (example_request None (Some ''mcts'')) Hybrid_new)
     = MCTS" by blast
  from C2_priority_order_then_registered_explicit_choice[OF refl refl,
      of "example_request None (Some ''fastest'')" "0.5" "0.6" 1] f fn c2
  have r3: "activeStrategy (switchDecision 0.5 0.6 1 (example_request None (Some ''fastest'')) Hybrid_new)
     = MCTS" by simp
  from r1 r2 r3 show ?thesis by simp
qed

text \<open>
  The claim as it was stated fails for a request that names the strategy \<open>hybrid\<close>: the
  Hybrid holds no strategy under that name, so the computed choice (CSP for a request with
  six constraint keys) stays active.
\<close>

theorem C2_counterexample:
  "strategyType six_constraints_request = Some ''hybrid''
   \<and> calculateConstraintDensity six_constraints_request = 6
   \<and> activeStrategy (evaluateStrategySwitch (StateManager_new CONFIG_cacheSize)
        six_constraints_request Hybrid_new) = CONSTRAINT_SATISFACTION
   \<and> getActiveStrategyName (evaluateStrategySwitch (StateManager_new CONFIG_cacheSize)
        six_constraints_request Hybrid_new) = ''csp''"
proof -
  have s: "strategyType six_constraints_request = Some ''hybrid''"
    by (simp add: six_constraints_request_def example_request_def)
  have low: "toLowerCase ''x'' = ''x''"
    by (simp add: toLowerCase_def)
  have d: "calculateConstraintDensity six_constraints_request = 6"
    by (simp add: calculateConstraintDensity_def six_constraints_request_def example_request_def
          Let_def constraintKeywords_def low)
  have a: "activeStrategy (evaluateStrategySwitch (StateManager_new CONFIG_cacheSize)
        six_constraints_request Hybrid_new) = CONSTRAINT_SATISFACTION"
    by (simp add: evaluateStrategySwitch_def Let_def d switchDecision_def s automaticSwitch_def
          switchStrategy_def Hybrid_new_def)
  have "hybrid_strategies (evaluateStrategySwitch (StateManager_new CONFIG_cacheSize)
        six_constraints_request Hybrid_new) = hybrid_strategies Hybrid_new"
    by (simp add: evaluateStrategySwitch_def Let_def switchDecision_def s
          switchStrategy_strategies automaticSwitch_strategies)
  then have g: "getActiveStrategyName (evaluateStrategySwitch (StateManager_new CONFIG_cacheSize)
        six_constraints_request Hybrid_new) = ''csp''"
    unfolding getActiveStrategyName_def a
    by (simp add: Hybrid_new_def)
  from s d a g show ?thesis by simp
qed

section \<open>Reasoner.setStrategy\<close>

lemma createStrategy_value: "createStrategy (strategy_value k) = Inr k"
  by (cases k) (simp_all add: createStrategy_def)

lemma registered_map_of:
  "map_of (reasoner_strategies Reasoner_new) t =
     (if t = ''beam_search'' then Some BEAM_SEARCH
      else if t = ''mcts'' then Some MCTS
      else if t = ''a_star'' then Some A_STAR
      else if t = ''csp'' then Some CONSTRAINT_SATISFACTION
      else if t = ''hybrid'' then Some HYBRID else None)"
  by (simp add: Reasoner_new_def Let_def)

lemma registered_is_value: "t \<in> registered_identifiers \<Longrightarrow> \<exists>k. t = strategy_value k"
  unfolding registered_identifiers_def
  by (metis insertE empty_iff strategy_value.simps)

text \<open>
  Claim C7. In a Reasoner whose strategy map is the one its constructor builds,
  \<open>setStrategy s\<close> fails exactly when \<open>s\<close> is none of the five registered identifiers,
  and then with the UnknownStrategy error for \<open>s\<close>. For a registered identifier it
  succeeds, and the current strategy becomes the strategy object registered under it.
\<close>

theorem C7_setStrategy_fails_exactly_on_unregistered:
  assumes "reasoner_strategies r = reasoner_strategies Reasoner_new"
  shows "((\<exists>e. setStrategy t r = Inl e) \<longleftrightarrow> t \<notin> registered_identifiers)
       \<and> (t \<notin> registered_identifiers \<longrightarrow> setStrategy t r = Inl (UnknownStrategy t))
       \<and> (\<forall>k. t = strategy_value k \<longrightarrow>
             t \<in> registered_identifiers
             \<and> map_of (reasoner_strategies r) t = Some k
             \<and> setStrategy t r = Inr (r\<lparr> currentStrategy := k \<rparr>))"
proof -
  have m: "map_of (reasoner_strategies r) t = map_of (reasoner_strategies Reasoner_new) t"
    using assms by simp
  have a: "t \<notin> registered_identifiers \<Longrightarrow> setStrategy t r = Inl (UnknownStrategy t)"
    unfolding setStrategy_def m registered_map_of registered_identifiers_def by simp
  have b: "t = strategy_value k \<Longrightarrow>
             t \<in> registered_identifiers
             \<and> map_of (reasoner_strategies r) t = Some k
             \<and> setStrategy t r = Inr (r\<lparr> currentStrategy := k \<rparr>)" for k
    unfolding setStrategy_def m registered_map_of registered_identifiers_def
    by (cases k) simp_all
  have "(\<exists>e. setStrategy t r = Inl e) \<longleftrightarrow> t \<notin> registered_identifiers"
  proof
    assume f: "\<exists>e. setStrategy t r = Inl e"
    show "t \<notin> registered_identifiers"
    proof
      assume "t \<in> registered_identifiers"
      from registered_is_value[OF this] obtain k where "t = strategy_value k" by blast
      from b[OF this] f show False by auto
    qed
  next
    assume "t \<notin> registered_identifiers"
    from a[OF this] show "\<exists>e. setStrategy t r = Inl e" by blast
  qed
  with a b show ?thesis by blast
qed

theorem C7_witness:
  "setStrategy ''csp'' Reasoner_new = Inr (Reasoner_new\<lparr> currentStrategy := CONSTRAINT_SATISFACTION \<rparr>)
   \<and> setStrategy ''quantum'' Reasoner_new = Inl (UnknownStrategy ''quantum'')"
proof -
  have v: "''csp'' = strategy_value CONSTRAINT_SATISFACTION" by simp
  have q: "''quantum'' \<notin> registered_identifiers"
    by (simp add: registered_identifiers_def)
  from C7_setStrategy_fails_exactly_on_unregistered[OF refl, of "''csp''"] v
  have r1: "setStrategy ''csp'' Reasoner_new = Inr (Reasoner_new\<lparr> currentStrategy := CONSTRAINT_SATISFACTION \<rparr>)"
    by blast
  from C7_setStrategy_fails_exactly_on_unregistered[OF refl, of "''quantum''"] q
  have r2: "setStrategy ''quantum'' Reasoner_new = Inl (UnknownStrategy ''quantum'')"
    by blast
  from r1 r2 show ?thesis by simp
qed

section \<open>The engine boundary\<close>

text \<open>
  Claim C6. If the reasoner call made for a request throws, \<open>handle\<close> returns a response
  whose node id is the empty string, whose \<open>isComplete\<close> is false, whose error flag is
  true and whose \<open>errorMessage\<close> is the message of the thrown \<open>Error\<close>, or the fixed
  text "Unknown error in reasoning engine" when something else was thrown. \<open>handle\<close>
  itself has a response on every path.
\<close>

theorem C6_handle_turns_a_fault_into_an_error_response:
  assumes "fst (processThought request s) = Inl e"
  shows "r_nodeId (fst (handle processThought request s)) = []
       \<and> \<not> r_isComplete (fst (handle processThought request s))
       \<and> r_error (fst (handle processThought request s)) = Some True
       \<and> r_errorMessage (fst (handle processThought request s)) =
           Some (case e of ErrorInstance message \<Rightarrow> message
                 | NonError v \<Rightarrow> ''Unknown error in reasoning engine'')
       \<and> fst (handle processThought request s) = errorResponse e"
proof -
  obtain s' where "processThought request s = (Inl e, s')"
    using assms by (cases "processThought request s") auto
  then show ?thesis
    by (simp add: handle_def Let_def errorResponse_def plain_response_def)
qed

theorem C6_witness:
  "r_nodeId (fst (handle failing_processThought (example_request None None) ())) = []
   \<and> \<not> r_isComplete (fst (handle failing_processThought (example_request None None) ()))
   \<and> r_error (fst (handle failing_processThought (example_request None None) ())) = Some True
   \<and> r_errorMessage (fst (handle failing_processThought (example_request None None) ())) = Some ''boom''"
proof -
  have f: "fst (failing_processThought (example_request None None) ()) = Inl (ErrorInstance ''boom'')"
    by (simp add: failing_processThought_def)
  from C6_handle_turns_a_fault_into_an_error_response[of failing_processThought
      "example_request None None" "()" "ErrorInstance ''boom''", OF f]
  have "r_errorMessage (fst (handle failing_processThought (example_request None None) ())) =
          Some (case ErrorInstance ''boom'' of ErrorInstance message \<Rightarrow> message
                | NonError v \<Rightarrow> ''Unknown error in reasoning engine'')"
    and "r_nodeId (fst (handle failing_processThought (example_request None None) ())) = []"
    and "\<not> r_isComplete (fst (handle failing_processThought (example_request None None) ()))"
    and "r_error (fst (handle failing_processThought (example_request None None) ())) = Some True"
    by blast+
  then show ?thesis by simp
qed

end
